theory Spec2Isabelle
  imports Main "HOL-Library.Sublist"
begin

text \<open>
  A shallow embedding of the iTerm tabs plugin for the Stream Deck: the parsing of tab
  names and of the process table, the attention engine \<open>updateAttention\<close> with its
  notification window, the handler of the log stream, the reader of the event file,
  the publishing loop of \<open>pollTabs\<close> and the key handler. Module-level variables are
  fields of a record that every function takes and returns; exceptions are values.
\<close>

section \<open>Strings\<close>

text \<open>
  The plugin's strings are modelled as \<^typ>\<open>string\<close> over ASCII text: white space is
  the ASCII part of the ECMAScript \<open>\s\<close> class (tab, line feed, vertical tab, form feed,
  carriage return, space), a line terminator is a line feed or a carriage return, and
  \<open>toLowerCase\<close> maps \<open>A\<close>..\<open>Z\<close> to \<open>a\<close>..\<open>z\<close>.
\<close>

definition isWhiteSpace :: "char \<Rightarrow> bool" where
  "isWhiteSpace c = (c \<in> set [CHR 0x09, CHR 0x0A, CHR 0x0B, CHR 0x0C, CHR 0x0D, CHR '' ''])"

definition isLineTerminator :: "char \<Rightarrow> bool" where
  "isLineTerminator c = (c \<in> set [CHR 0x0A, CHR 0x0D])"

definition lowerChar :: "char \<Rightarrow> char" where
  "lowerChar c =
     (let n = (of_char c :: nat) in if 65 \<le> n \<and> n \<le> 90 then char_of (n + 32) else c)"

definition toLowerCase :: "string \<Rightarrow> string" where
  "toLowerCase s = map lowerChar s"

definition trim :: "string \<Rightarrow> string" where
  "trim s = rev (dropWhile isWhiteSpace (rev (dropWhile isWhiteSpace s)))"

text \<open>\<open>s.includes(p)\<close> (\<open>includes\<close> is a keyword of Isabelle): \<open>p\<close> occurs in \<open>s\<close> as a contiguous substring.\<close>

definition includesStr :: "string \<Rightarrow> string \<Rightarrow> bool" where
  "includesStr s p = sublist p s"

text \<open>\<open>for (let i = 0; i < n; i++) body(i)\<close> on a state threaded through the body.\<close>

primrec forUpto :: "nat \<Rightarrow> (nat \<Rightarrow> 's \<Rightarrow> 's) \<Rightarrow> 's \<Rightarrow> 's" where
  "forUpto 0 body s = s"
| "forUpto (Suc n) body s = body n (forUpto n body s)"

text \<open>\<open>xs[i] ?? false\<close>: a read past the end of the array is \<open>undefined\<close>, hence \<open>false\<close>.\<close>

definition boolAt :: "bool list \<Rightarrow> nat \<Rightarrow> bool" where
  "boolAt xs i = (if i < length xs then xs ! i else False)"

section \<open>Tab name parsing\<close>

text \<open>
  \<open>parseTabName\<close> matches \<open>/^(.+?)\s*\(([^)]+)\)\s*$/\<close>. The tail
  \<open>\s*\(([^)]+)\)\s*$\<close> has one way to match: all the white space, an opening
  parenthesis, the longest run of characters other than \<open>)\<close> (not empty), a closing
  parenthesis, white space to the end. \<open>matchProcessSuffix\<close> returns the second group.
\<close>

definition matchProcessSuffix :: "string \<Rightarrow> string option" where
  "matchProcessSuffix r =
     (case dropWhile isWhiteSpace r of
        [] \<Rightarrow> None
      | c # r2 \<Rightarrow>
          if c = CHR ''(''
          then (let proc = takeWhile (\<lambda>x. x \<noteq> CHR '')'') r2;
                    r3 = dropWhile (\<lambda>x. x \<noteq> CHR '')'') r2
                in if proc \<noteq> [] \<and> r3 \<noteq> [] \<and> list_all isWhiteSpace (tl r3)
                   then Some proc else None)
          else None)"

text \<open>
  The lazy group \<open>(.+?)\<close> takes the shortest non-empty prefix without a line terminator
  after which the tail matches; \<open>pre\<close> is the prefix taken so far.
\<close>

fun lazyPrefix :: "string \<Rightarrow> string \<Rightarrow> (string \<times> string) option" where
  "lazyPrefix pre [] = None"
| "lazyPrefix pre (c # cs) =
     (case matchProcessSuffix (c # cs) of
        Some proc \<Rightarrow> Some (pre, proc)
      | None \<Rightarrow> if isLineTerminator c then None else lazyPrefix (pre @ [c]) cs)"

record ParsedName =
  displayName :: string
  process :: string

definition parseTabName :: "string \<Rightarrow> ParsedName" where
  "parseTabName fullName =
     (case fullName of
        [] \<Rightarrow> \<lparr>displayName = fullName, process = []\<rparr>
      | c # cs \<Rightarrow>
          if isLineTerminator c then \<lparr>displayName = fullName, process = []\<rparr>
          else (case lazyPrefix [c] cs of
                  Some (d, p) \<Rightarrow> \<lparr>displayName = trim d, process = trim p\<rparr>
                | None \<Rightarrow> \<lparr>displayName = fullName, process = []\<rparr>))"

definition matchesProject :: "string \<Rightarrow> string \<Rightarrow> bool" where
  "matchesProject tabFullName project =
     includesStr (toLowerCase (displayName (parseTabName tabFullName))) (toLowerCase project)"

section \<open>Attention state\<close>

text \<open>
  \<open>TabInfo\<close> is the snapshot of one poll. The module-level variables of the plugin are
  the fields of \<open>engine\<close>; every function that assigns one takes the engine and returns
  it updated. Tab indices and poll counts are JavaScript numbers holding integers far
  below \<open>2^53\<close>, modelled as \<^typ>\<open>int\<close>. \<open>logStreamProcess\<close> records whether the handle
  of the log subprocess is set; \<open>visibleActions\<close> maps an action id to its tab index.
  Calls of the logger assign none of these variables and are left out, as are the
  poll durations that \<open>pollTabs\<close> collects for its statistics.
\<close>

record TabInfo =
  names :: "string list"
  activeIndex :: int
  prompts :: "bool list"
  processing :: "bool list"
  frontmost :: bool
  ttys :: "string list"

record engine =
  visibleActions :: "(string \<times> int) list"
  attentionTabs :: "int set"
  pollCount :: int
  prevPromptState :: "int \<rightharpoonup> bool"
  lastProcessingPoll :: "int \<rightharpoonup> int"
  prevProcessingState :: "int \<rightharpoonup> bool"
  logStreamProcess :: bool
  notificationPending :: bool
  notificationProject :: "string option"
  notificationWindowEnd :: int
  pollInProgress :: bool

definition NOTIFICATION_WINDOW_POLLS :: int where
  "NOTIFICATION_WINDOW_POLLS = 4"

text \<open>The engine as the module initialises it.\<close>

definition initialEngine :: engine where
  "initialEngine =
     \<lparr>visibleActions = [], attentionTabs = {}, pollCount = 0,
      prevPromptState = Map.empty, lastProcessingPoll = Map.empty,
      prevProcessingState = Map.empty, logStreamProcess = False,
      notificationPending = False, notificationProject = None,
      notificationWindowEnd = - 1, pollInProgress = False\<rparr>"

text \<open>The body of the loop of \<open>applyTimingHeuristic\<close>, for the array index \<open>i\<close>.\<close>

definition timingStep :: "TabInfo \<Rightarrow> int \<Rightarrow> nat \<Rightarrow> engine \<Rightarrow> engine" where
  "timingStep tabInfo visibleTab i s =
     (let tabIdx = int i + 1 in
      if tabIdx = visibleTab then s
      else
        let atPrompt = boolAt (prompts tabInfo) i;
            isProc = boolAt (processing tabInfo) i
        in if atPrompt \<or> isProc then s
           else (case lastProcessingPoll s tabIdx of
                   None \<Rightarrow> s
                 | Some lastActive \<Rightarrow>
                     if pollCount s - lastActive \<le> 3
                     then s\<lparr>attentionTabs := insert tabIdx (attentionTabs s)\<rparr>
                     else s))"

definition applyTimingHeuristic :: "TabInfo \<Rightarrow> int \<Rightarrow> engine \<Rightarrow> engine" where
  "applyTimingHeuristic tabInfo visibleTab s =
     forUpto (length (names tabInfo)) (timingStep tabInfo visibleTab)
       (s\<lparr>notificationWindowEnd := pollCount s + NOTIFICATION_WINDOW_POLLS\<rparr>)"

text \<open>
  The body of the project-matching loop of \<open>updateAttention\<close>; the local \<open>matched\<close>
  travels with the engine.
\<close>

definition projectStep ::
  "TabInfo \<Rightarrow> int \<Rightarrow> string \<Rightarrow> nat \<Rightarrow> engine \<times> bool \<Rightarrow> engine \<times> bool" where
  "projectStep tabInfo visibleTab project i sm =
     (let tabIdx = int i + 1 in
      if tabIdx = visibleTab then sm
      else if matchesProject (names tabInfo ! i) project
           then ((fst sm)\<lparr>attentionTabs := insert tabIdx (attentionTabs (fst sm))\<rparr>, True)
           else sm)"

text \<open>
  The block \<open>if (notificationPending) { ... }\<close> of \<open>updateAttention\<close>. A hint that is
  \<open>null\<close> or the empty string is falsy.
\<close>

definition consumeNotification :: "TabInfo \<Rightarrow> int \<Rightarrow> engine \<Rightarrow> engine" where
  "consumeNotification tabInfo visibleTab s =
     (if notificationPending s then
        (let s1 = s\<lparr>notificationPending := False\<rparr> in
         case notificationProject s1 of
           None \<Rightarrow> applyTimingHeuristic tabInfo visibleTab s1
         | Some project \<Rightarrow>
             if project = [] then applyTimingHeuristic tabInfo visibleTab s1
             else
               (let sm = forUpto (length (names tabInfo))
                           (projectStep tabInfo visibleTab project) (s1, False);
                    s2 = (if snd sm then fst sm
                          else applyTimingHeuristic tabInfo visibleTab (fst sm))
                in s2\<lparr>notificationProject := None\<rparr>))
      else s)"

text \<open>The body of the main loop of \<open>updateAttention\<close>, for the array index \<open>i\<close>.\<close>

definition attentionStep :: "TabInfo \<Rightarrow> int \<Rightarrow> bool \<Rightarrow> nat \<Rightarrow> engine \<Rightarrow> engine" where
  "attentionStep tabInfo visibleTab inNotificationWindow i s =
     (let tabIdx = int i + 1;
          atPrompt = boolAt (prompts tabInfo) i;
          wasAtPrompt = (case prevPromptState s tabIdx of None \<Rightarrow> False | Some b \<Rightarrow> b);
          isProcessing = boolAt (processing tabInfo) i;
          wasProcessing = (case prevProcessingState s tabIdx of None \<Rightarrow> False | Some b \<Rightarrow> b);
          s1 = (if tabIdx = visibleTab
                then s\<lparr>attentionTabs := attentionTabs s - {tabIdx}\<rparr>
                else if pollCount s > 0 then
                  (let sa = (if inNotificationWindow \<and> atPrompt \<and> \<not> wasAtPrompt
                             then s\<lparr>attentionTabs := insert tabIdx (attentionTabs s)\<rparr>
                             else s)
                   in if inNotificationWindow \<and> wasProcessing \<and> \<not> isProcessing
                      then sa\<lparr>attentionTabs := insert tabIdx (attentionTabs sa)\<rparr>
                      else sa)
                else s);
          s2 = (if isProcessing
                then s1\<lparr>lastProcessingPoll := (lastProcessingPoll s1)(tabIdx \<mapsto> pollCount s1)\<rparr>
                else s1)
      in s2\<lparr>prevPromptState := (prevPromptState s2)(tabIdx \<mapsto> atPrompt),
            prevProcessingState := (prevProcessingState s2)(tabIdx \<mapsto> isProcessing)\<rparr>)"

text \<open>
  \<open>startLogStream\<close>: nothing when the handle is set; otherwise \<open>spawn\<close> returns a handle
  (a subprocess that fails to start reports it later, through its \<open>error\<close> event).
\<close>

definition startLogStream :: "engine \<Rightarrow> engine" where
  "startLogStream s = (if logStreamProcess s then s else s\<lparr>logStreamProcess := True\<rparr>)"

definition visibleTabOf :: "TabInfo \<Rightarrow> int" where
  "visibleTabOf tabInfo = (if frontmost tabInfo then activeIndex tabInfo else - 1)"

definition updateAttention :: "TabInfo \<Rightarrow> engine \<Rightarrow> engine" where
  "updateAttention tabInfo s =
     (let visibleTab = visibleTabOf tabInfo;
          s1 = consumeNotification tabInfo visibleTab s;
          inNotificationWindow = (pollCount s1 \<le> notificationWindowEnd s1);
          s2 = forUpto (length (names tabInfo))
                 (attentionStep tabInfo visibleTab inNotificationWindow) s1;
          s3 = (if \<not> logStreamProcess s2 \<and> visibleActions s2 \<noteq> []
                then startLogStream s2 else s2)
      in s3\<lparr>pollCount := pollCount s3 + 1\<rparr>)"

text \<open>
  The two edges that the main loop tests for the tab \<open>t\<close>, against the values the engine
  recorded at the previous poll (\<open>false\<close> when nothing is recorded).
\<close>

definition wasAtPrompt :: "engine \<Rightarrow> int \<Rightarrow> bool" where
  "wasAtPrompt s t = (case prevPromptState s t of None \<Rightarrow> False | Some b \<Rightarrow> b)"

definition wasProcessing :: "engine \<Rightarrow> int \<Rightarrow> bool" where
  "wasProcessing s t = (case prevProcessingState s t of None \<Rightarrow> False | Some b \<Rightarrow> b)"

definition promptRisingEdge :: "TabInfo \<Rightarrow> engine \<Rightarrow> int \<Rightarrow> bool" where
  "promptRisingEdge tabInfo s t =
     (boolAt (prompts tabInfo) (nat (t - 1)) \<and> \<not> wasAtPrompt s t)"

definition processingFallingEdge :: "TabInfo \<Rightarrow> engine \<Rightarrow> int \<Rightarrow> bool" where
  "processingFallingEdge tabInfo s t =
     (wasProcessing s t \<and> \<not> boolAt (processing tabInfo) (nat (t - 1)))"

text \<open>\<open>t\<close> is one of the tabs of the snapshot: \<open>t = i + 1\<close> for an index \<open>i\<close> of \<open>names\<close>.\<close>

definition isTabOf :: "TabInfo \<Rightarrow> int \<Rightarrow> bool" where
  "isTabOf tabInfo t = (1 \<le> t \<and> t \<le> int (length (names tabInfo)))"

text \<open>
  The tabs the timing heuristic is described to flag: not visible, neither processing
  nor at a shell prompt, last seen processing at most 3 polls ago.
\<close>

definition recentlyFinished :: "TabInfo \<Rightarrow> int \<Rightarrow> engine \<Rightarrow> int \<Rightarrow> bool" where
  "recentlyFinished tabInfo visibleTab s t =
     (isTabOf tabInfo t \<and> t \<noteq> visibleTab
      \<and> \<not> boolAt (prompts tabInfo) (nat (t - 1))
      \<and> \<not> boolAt (processing tabInfo) (nat (t - 1))
      \<and> (case lastProcessingPoll s t of None \<Rightarrow> False | Some p \<Rightarrow> pollCount s - p \<le> 3))"

text \<open>The tabs the project match is described to flag.\<close>

definition projectMatched :: "TabInfo \<Rightarrow> int \<Rightarrow> string \<Rightarrow> int \<Rightarrow> bool" where
  "projectMatched tabInfo visibleTab project t =
     (isTabOf tabInfo t \<and> t \<noteq> visibleTab
      \<and> matchesProject (names tabInfo ! nat (t - 1)) project)"

section \<open>Program detection\<close>

text \<open>
  \<open>s.replace(p, r)\<close> with a string pattern replaces the first occurrence;
  \<open>s.split(sep)\<close> with a one-character separator; \<open>xs.join(sep)\<close>.
\<close>

fun replaceFirst :: "string \<Rightarrow> string \<Rightarrow> string \<Rightarrow> string" where
  "replaceFirst p r [] = (if p = [] then r else [])"
| "replaceFirst p r (c # cs) =
     (if prefix p (c # cs) then r @ drop (length p) (c # cs)
      else c # replaceFirst p r cs)"

fun splitOn :: "char \<Rightarrow> string \<Rightarrow> string list" where
  "splitOn sep [] = [[]]"
| "splitOn sep (c # cs) =
     (if c = sep then [] # splitOn sep cs
      else (case splitOn sep cs of [] \<Rightarrow> [[c]] | x # xs \<Rightarrow> (c # x) # xs))"

fun joinWith :: "string \<Rightarrow> string list \<Rightarrow> string" where
  "joinWith sep [] = []"
| "joinWith sep [x] = x"
| "joinWith sep (x # y # ys) = x @ sep @ joinWith sep (y # ys)"

text \<open>Fallback: the program from the process name shown in the tab title.\<close>

definition detectProgramFromName :: "string \<Rightarrow> string" where
  "detectProgramFromName proc =
     (let l = toLowerCase proc;
          p = (case l of [] \<Rightarrow> l | c # cs \<Rightarrow> if c = CHR ''-'' then cs else l)
      in if includesStr p ''codex'' then ''codex''
         else if includesStr p ''claude'' then ''claude''
         else if includesStr p ''python'' then ''python''
         else if includesStr p ''node'' \<or> includesStr p ''npm'' \<or> includesStr p ''npx''
              then ''node''
         else if includesStr p ''ssh'' then ''ssh''
         else if includesStr p ''vim'' \<or> includesStr p ''nvim'' then ''vim''
         else if includesStr p ''zsh'' \<or> includesStr p ''bash'' \<or> includesStr p ''fish''
              then ''shell''
         else ''other'')"

text \<open>
  One line of \<open>ps\<close> against \<open>/^\s*(\S+)\s+(\S+)\s+(.+)$/\<close>: two tokens, then the rest of
  the line, which must hold no line terminator. When only white space follows the
  second token, the last \<open>\s+\<close> gives back its last character to \<open>(.+)\<close>.
\<close>

definition matchPsLine :: "string \<Rightarrow> (string \<times> string \<times> string) option" where
  "matchPsLine line =
     (let r0 = dropWhile isWhiteSpace line;
          tty = takeWhile (\<lambda>c. \<not> isWhiteSpace c) r0;
          r1 = dropWhile (\<lambda>c. \<not> isWhiteSpace c) r0;
          r2 = dropWhile isWhiteSpace r1;
          stat = takeWhile (\<lambda>c. \<not> isWhiteSpace c) r2;
          r3 = dropWhile (\<lambda>c. \<not> isWhiteSpace c) r2;
          gap = takeWhile isWhiteSpace r3;
          cmd = dropWhile isWhiteSpace r3
      in if tty = [] \<or> stat = [] \<or> gap = [] then None
         else if cmd \<noteq> []
              then (if list_ex isLineTerminator cmd then None else Some (tty, stat, cmd))
         else if 2 \<le> length gap \<and> \<not> isLineTerminator (last gap)
              then Some (tty, stat, [last gap])
         else None)"

text \<open>The body of the loop that groups the foreground command lines by tty.\<close>

definition fgStep :: "(string \<rightharpoonup> string list) \<Rightarrow> string \<Rightarrow> (string \<rightharpoonup> string list)" where
  "fgStep fgByTty line =
     (case matchPsLine line of
        None \<Rightarrow> fgByTty
      | Some (tty, stat, cmd) \<Rightarrow>
          if \<not> includesStr stat ''+'' then fgByTty
          else fgByTty(tty \<mapsto> (case fgByTty tty of None \<Rightarrow> [] | Some cmds \<Rightarrow> cmds) @ [cmd]))"

definition groupForeground :: "string \<Rightarrow> (string \<rightharpoonup> string list)" where
  "groupForeground psOutput = foldl fgStep Map.empty (splitOn CHR 0x0A psOutput)"

text \<open>The body of the loop over \<open>ttys\<close>: specific tools before generic runtimes.\<close>

definition ttyStep ::
  "string list \<Rightarrow> (string \<rightharpoonup> string list) \<Rightarrow> nat \<Rightarrow> (int \<rightharpoonup> string) \<Rightarrow> (int \<rightharpoonup> string)" where
  "ttyStep ttyList fgByTty i result =
     (let tty = replaceFirst ''/dev/'' [] (ttyList ! i) in
      case fgByTty tty of
        None \<Rightarrow> result
      | Some cmds \<Rightarrow>
          (let combined = toLowerCase (joinWith '' '' cmds) in
           if includesStr combined ''claude'' \<or> includesStr combined ''.local/share/claude/''
           then result(int i + 1 \<mapsto> ''claude'')
           else if includesStr combined ''codex'' then result(int i + 1 \<mapsto> ''codex'')
           else if includesStr combined ''ssh '' then result(int i + 1 \<mapsto> ''ssh'')
           else if includesStr combined ''vim'' \<or> includesStr combined ''nvim''
                then result(int i + 1 \<mapsto> ''vim'')
           else result))"

definition matchTtyPrograms :: "string list \<Rightarrow> string \<Rightarrow> (int \<rightharpoonup> string)" where
  "matchTtyPrograms ttyList psOutput =
     (if ttyList = [] \<or> psOutput = [] then Map.empty
      else forUpto (length ttyList) (ttyStep ttyList (groupForeground psOutput)) Map.empty)"

section \<open>Notification monitoring\<close>

text \<open>
  The content of the event file after \<open>JSON.parse\<close>. Numbers are the integers
  (epoch milliseconds are integers below \<open>2^53\<close>, where \<open>Date.now() - timestamp\<close> is
  exact); an object is the list of its properties, looked up by key.
\<close>

datatype json =
    JNull
  | JBool bool
  | JNum int
  | JStr string
  | JArr "json list"
  | JObj "(string \<times> json) list"

text \<open>
  What \<open>readFileSync\<close> followed by \<open>JSON.parse\<close> does: the first throws when the file
  is missing, the second when the content does not parse.
\<close>

datatype eventFile = FileMissing | FileUnparseable | FileData json

datatype js_error = FsError | SyntaxError | TypeError

text \<open>
  \<open>data.key\<close>: a \<open>TypeError\<close> on \<open>null\<close>, \<open>undefined\<close> (here \<open>None\<close>) when the value
  is not an object or the object has no such property.
\<close>

fun property :: "json \<Rightarrow> string \<Rightarrow> js_error + json option" where
  "property JNull k = Inl TypeError"
| "property (JObj kvs) k = Inr (map_of kvs k)"
| "property v k = Inr None"

fun truthy :: "json \<Rightarrow> bool" where
  "truthy JNull = False"
| "truthy (JBool b) = b"
| "truthy (JNum n) = (n \<noteq> 0)"
| "truthy (JStr str) = (str \<noteq> [])"
| "truthy (JArr vs) = True"
| "truthy (JObj kvs) = True"

text \<open>
  The operand of \<open>Date.now() - data.timestamp\<close> as a number; \<open>None\<close> is \<open>NaN\<close>. The
  conversion of a string, an array or an object is the runtime's, the parameter
  \<open>coerce\<close>.
\<close>

fun toNumber :: "(json \<Rightarrow> int option) \<Rightarrow> json \<Rightarrow> int option" where
  "toNumber coerce (JNum n) = Some n"
| "toNumber coerce (JBool b) = Some (if b then 1 else 0)"
| "toNumber coerce JNull = Some 0"
| "toNumber coerce v = coerce v"

text \<open>The body of the \<open>try\<close> block of \<open>readNotificationEvent\<close>; \<open>now\<close> is \<open>Date.now()\<close>.\<close>

definition readEventBody ::
  "(json \<Rightarrow> int option) \<Rightarrow> eventFile \<Rightarrow> int \<Rightarrow> js_error + json option" where
  "readEventBody coerce file now =
     (case file of
        FileMissing \<Rightarrow> Inl FsError
      | FileUnparseable \<Rightarrow> Inl SyntaxError
      | FileData d \<Rightarrow>
          (case property d ''project'' of
             Inl e \<Rightarrow> Inl e
           | Inr None \<Rightarrow> Inr None
           | Inr (Some p) \<Rightarrow>
               if \<not> truthy p then Inr None
               else (case property d ''timestamp'' of
                       Inl e \<Rightarrow> Inl e
                     | Inr None \<Rightarrow> Inr None
                     | Inr (Some t) \<Rightarrow>
                         if \<not> truthy t then Inr None
                         else (case toNumber coerce t of
                                 None \<Rightarrow> Inr None
                               | Some ts \<Rightarrow>
                                   if now - ts < 5000 then Inr (Some d) else Inr None))))"

text \<open>The \<open>catch\<close> swallows every error and the function returns \<open>null\<close>.\<close>

definition readNotificationEvent ::
  "(json \<Rightarrow> int option) \<Rightarrow> eventFile \<Rightarrow> int \<Rightarrow> js_error + json option" where
  "readNotificationEvent coerce file now =
     (case readEventBody coerce file now of
        Inl e \<Rightarrow> Inr None
      | Inr r \<Rightarrow> Inr r)"

text \<open>The value \<open>readNotificationEvent\<close> returns, at its declared type.\<close>

record NotificationEvent =
  project :: string
  timestamp :: int

section \<open>Polling and key presses\<close>

text \<open>
  \<open>pollTabs\<close> up to its \<open>await\<close>: nothing when a poll is in flight, otherwise the flag
  is set and the three queries start. The result says whether they started.
\<close>

definition pollTabsBegin :: "engine \<Rightarrow> engine \<times> bool" where
  "pollTabsBegin s =
     (if pollInProgress s then (s, False) else (s\<lparr>pollInProgress := True\<rparr>, True))"

text \<open>
  The body of the loop over the lines of the log stream; \<open>matchers\<close> is
  \<open>NOTIFICATION_MATCHERS\<close> and \<open>event\<close> what \<open>readNotificationEvent\<close> returns when it
  is called.
\<close>

definition DEFAULT_NOTIFICATION_MATCHERS :: "string list" where
  "DEFAULT_NOTIFICATION_MATCHERS = [''com.googlecode.iterm2'', ''heyagent'', ''HeyAgent'']"

definition onLogLine ::
  "string list \<Rightarrow> NotificationEvent option \<Rightarrow> string \<Rightarrow> engine \<Rightarrow> engine \<times> bool" where
  "onLogLine matchers event line s =
     (if prefix ''Filtering'' line \<or> prefix ''Timestamp'' line \<or> trim line = []
      then (s, False)
      else if matchers = [] then (s, False)
      else if \<not> list_ex (\<lambda>m. includesStr line m) matchers then (s, False)
      else if \<not> notificationPending s
           then pollTabsBegin
                  (s\<lparr>notificationProject :=
                        (case event of None \<Rightarrow> None | Some e \<Rightarrow> Some (project e)),
                     notificationPending := True\<rparr>)
      else (s, False))"

text \<open>
  What a button is given: the options passed to \<open>renderButton\<close>, or the empty button.
\<close>

record ButtonOpts =
  tabName :: string
  program :: string
  isActive :: bool
  hasAttention :: bool

datatype image = EmptyButton | Button ButtonOpts

text \<open>\<open>xs[j]\<close>: \<open>undefined\<close> (here \<open>None\<close>) outside the array.\<close>

definition arrayAt :: "'a list \<Rightarrow> int \<Rightarrow> 'a option" where
  "arrayAt xs j = (if 0 \<le> j \<and> j < int (length xs) then Some (xs ! nat j) else None)"

text \<open>
  The body of the publishing loop of \<open>pollTabs\<close> for a tracked index \<open>idx\<close>;
  \<open>parseTabName(undefined)\<close> throws a \<open>TypeError\<close>.
\<close>

definition publishEntry ::
  "TabInfo \<Rightarrow> (int \<rightharpoonup> string) \<Rightarrow> engine \<Rightarrow> int \<Rightarrow> js_error + image" where
  "publishEntry tabInfo ttyPrograms s idx =
     (if idx \<le> int (length (names tabInfo)) then
        (case arrayAt (names tabInfo) (idx - 1) of
           None \<Rightarrow> Inl TypeError
         | Some fullName \<Rightarrow>
             (let parsed = parseTabName fullName;
                  prog = (case ttyPrograms idx of
                            Some p \<Rightarrow> p
                          | None \<Rightarrow> detectProgramFromName (process parsed))
              in Inr (Button \<lparr>tabName = displayName parsed, program = prog,
                              isActive = (idx = activeIndex tabInfo),
                              hasAttention = (idx \<in> attentionTabs s)\<rparr>)))
      else Inr EmptyButton)"

text \<open>The loop over \<open>visibleActions\<close>: an exception ends it.\<close>

fun publishLoop ::
  "TabInfo \<Rightarrow> (int \<rightharpoonup> string) \<Rightarrow> engine \<Rightarrow> (string \<times> int) list
     \<Rightarrow> js_error + (string \<times> image) list" where
  "publishLoop tabInfo ttyPrograms s [] = Inr []"
| "publishLoop tabInfo ttyPrograms s ((actionId, idx) # rest) =
     (case publishEntry tabInfo ttyPrograms s idx of
        Inl e \<Rightarrow> Inl e
      | Inr img \<Rightarrow>
          (case publishLoop tabInfo ttyPrograms s rest of
             Inl e \<Rightarrow> Inl e
           | Inr imgs \<Rightarrow> Inr ((actionId, img) # imgs)))"

text \<open>
  \<open>pollTabs\<close> from the point where the three queries have returned \<open>fetched\<close>,
  \<open>psOutput\<close> and \<open>front\<close>; the \<open>finally\<close> clears the flag whatever happened.
\<close>

definition pollTabsFinish ::
  "TabInfo \<Rightarrow> string \<Rightarrow> bool \<Rightarrow> engine \<Rightarrow> engine \<times> (js_error + (string \<times> image) list)" where
  "pollTabsFinish fetched psOutput front s =
     (let tabInfo = fetched\<lparr>frontmost := front\<rparr>;
          s1 = updateAttention tabInfo s;
          ttyPrograms = matchTtyPrograms (ttys tabInfo) psOutput;
          out = publishLoop tabInfo ttyPrograms s1 (visibleActions s1)
      in (s1\<lparr>pollInProgress := False\<rparr>, out))"

text \<open>
  \<open>onKeyDown\<close>, for the action \<open>actionId\<close>. \<open>keyDownBeforeSwitch\<close> is the handler up
  to the call of \<open>switchToTab\<close>; the commands it has issued come with the engine.
  \<open>switchFails\<close> says whether the \<open>osascript\<close> of \<open>switchToTab\<close> fails, which is caught
  and logged.
\<close>

datatype command = StartQueries | SelectTab int | WarnSwitchFailed int

definition keyDownBeforeSwitch ::
  "string \<Rightarrow> engine \<Rightarrow> (engine \<times> command list \<times> int) option" where
  "keyDownBeforeSwitch actionId s =
     (case map_of (visibleActions s) actionId of
        None \<Rightarrow> None
      | Some tabIndex \<Rightarrow>
          (let s1 = s\<lparr>attentionTabs := attentionTabs s - {tabIndex}\<rparr>;
               sp = pollTabsBegin s1
           in Some (fst sp, if snd sp then [StartQueries] else [], tabIndex)))"

definition onKeyDown :: "string \<Rightarrow> bool \<Rightarrow> engine \<Rightarrow> engine \<times> command list" where
  "onKeyDown actionId switchFails s =
     (case keyDownBeforeSwitch actionId s of
        None \<Rightarrow> (s, [])
      | Some (s1, cmds, tabIndex) \<Rightarrow>
          (s1, cmds @ [SelectTab tabIndex]
                 @ (if switchFails then [WarnSwitchFailed tabIndex] else [])))"

text \<open>
  The tab index \<open>onWillAppear\<close> tracks for an action: the stored setting when it is
  truthy, otherwise the first of 1 to 6 that no tracked action uses, otherwise 1.
\<close>

definition assignTabIndex :: "int option \<Rightarrow> (string \<times> int) list \<Rightarrow> int" where
  "assignTabIndex settingsTabIndex tracked =
     (let auto = (case find (\<lambda>i. i \<notin> set (map snd tracked)) [1, 2, 3, 4, 5, 6] of
                    Some i \<Rightarrow> i
                  | None \<Rightarrow> 1)
      in case settingsTabIndex of
           None \<Rightarrow> auto
         | Some k \<Rightarrow> if k = 0 then auto else k)"

section \<open>Scenarios\<close>

text \<open>
  Concrete snapshots and engines on which the theorems below are evaluated.
  \<open>signalled hint\<close> is the engine before its first poll, with a notification pending.
\<close>

definition signalled :: "string option \<Rightarrow> engine" where
  "signalled hint = initialEngine\<lparr>notificationPending := True, notificationProject := hint\<rparr>"

text \<open>Two tabs, the second one selected, iTerm2 in the background.\<close>

definition backgroundSnapshot :: TabInfo where
  "backgroundSnapshot =
     \<lparr>names = [''notes (vim)'', ''build (npm)''], activeIndex = 2,
      prompts = [False, False], processing = [False, True], frontmost = False,
      ttys = [''/dev/ttys001'', ''/dev/ttys002'']\<rparr>"

text \<open>The same two tabs with iTerm2 frontmost.\<close>

definition frontSnapshot :: TabInfo where
  "frontSnapshot = backgroundSnapshot\<lparr>frontmost := True\<rparr>"

text \<open>
  The same window once the session of the first tab reports an empty name:
  \<open>getTabInfo\<close> filters empty names out, so \<open>names\<close> has one entry while the other
  arrays keep two and the selected tab is still the second.
\<close>

definition shrunkSnapshot :: TabInfo where
  "shrunkSnapshot = frontSnapshot\<lparr>names := [''build (npm)'']\<rparr>"

text \<open>The same two tabs with iTerm2 frontmost and the first tab selected.\<close>

definition firstTabFront :: TabInfo where
  "firstTabFront = frontSnapshot\<lparr>activeIndex := 1\<rparr>"

text \<open>
  A notification with the hint \<open>build\<close> is pending at the first poll, taken in the
  background: the project match flags tab 2.
\<close>

definition buildFlagged :: engine where
  "buildFlagged = updateAttention backgroundSnapshot (signalled (Some ''build''))"

text \<open>A notification arrives: what the log handler assigns.\<close>

definition notified :: "string option \<Rightarrow> engine \<Rightarrow> engine" where
  "notified hint s = s\<lparr>notificationPending := True, notificationProject := hint\<rparr>"

text \<open>The second tab has stopped processing and is not at a shell prompt.\<close>

definition quietSnapshot :: TabInfo where
  "quietSnapshot = backgroundSnapshot\<lparr>processing := [False, False]\<rparr>"

text \<open>The second tab has stopped processing and is back at its shell prompt.\<close>

definition promptSnapshot :: TabInfo where
  "promptSnapshot =
     backgroundSnapshot\<lparr>prompts := [False, True], processing := [False, False]\<rparr>"

text \<open>
  After one poll that saw the second tab processing, a notification without a hint
  arrives: the next poll, number 1, opens the window.
\<close>

definition windowOpenEngine :: engine where
  "windowOpenEngine = notified None (updateAttention backgroundSnapshot initialEngine)"

text \<open>
  A notification before the first poll opens the window at poll 0; after the polls 0
  to 4, all with the second tab processing, \<open>pollCount\<close> is 5 and the window end is 4.
\<close>

definition windowClosedEngine :: engine where
  "windowClosedEngine =
     updateAttention backgroundSnapshot (updateAttention backgroundSnapshot
       (updateAttention backgroundSnapshot (updateAttention backgroundSnapshot
         (updateAttention backgroundSnapshot (signalled None)))))"

text \<open>
  The tabs \<open>Deploy (zsh)\<close> and \<open>notes (vim)\<close> with iTerm2 in the background: the second
  tab processing, then idle. A notification with the hint \<open>deploy\<close> arrives between
  the two polls.
\<close>

definition deployBusy :: TabInfo where
  "deployBusy =
     \<lparr>names = [''Deploy (zsh)'', ''notes (vim)''], activeIndex = 1,
      prompts = [False, False], processing = [False, True], frontmost = False,
      ttys = [''/dev/ttys001'', ''/dev/ttys002'']\<rparr>"

definition deployIdle :: TabInfo where
  "deployIdle = deployBusy\<lparr>processing := [False, False]\<rparr>"

definition deployEngine :: engine where
  "deployEngine = notified (Some ''deploy'') (updateAttention deployBusy initialEngine)"

text \<open>
  Two notification events, a line of the log stream that names iTerm2, and the engine
  after the handler has seen that line with the first event in the file.
\<close>

definition alphaEvent :: NotificationEvent where
  "alphaEvent = \<lparr>project = ''alpha'', timestamp = 1700000000000\<rparr>"

definition betaEvent :: NotificationEvent where
  "betaEvent = \<lparr>project = ''beta'', timestamp = 1700000001000\<rparr>"

definition logLine :: string where
  "logLine = ''2026-01-01 12:00:00.000 usernoted: [com.googlecode.iterm2] delivered''"

definition alphaPending :: engine where
  "alphaPending = fst (onLogLine DEFAULT_NOTIFICATION_MATCHERS (Some alphaEvent) logLine initialEngine)"

text \<open>An event file written at time 1000, and one without a project.\<close>

definition freshFile :: eventFile where
  "freshFile = FileData (JObj [(''project'', JStr ''deploy''), (''timestamp'', JNum 1000)])"

definition noProjectFile :: eventFile where
  "noProjectFile = FileData (JObj [(''timestamp'', JNum 1000)])"

text \<open>Two tracked buttons, both tabs flagged.\<close>

definition keyEngine :: engine where
  "keyEngine = initialEngine\<lparr>visibleActions := [(''button-1'', 1), (''button-2'', 2)],
                  attentionTabs := {1, 2}\<rparr>"

text \<open>
  What the publishing loop is described to give the button of the tracked index
  \<open>idx\<close>: the tuple of the tab \<open>names[idx - 1]\<close> when \<open>idx \<le> names.length\<close>, the
  empty button beyond.
\<close>

definition expectedImage :: "TabInfo \<Rightarrow> (int \<rightharpoonup> string) \<Rightarrow> engine \<Rightarrow> int \<Rightarrow> image" where
  "expectedImage tabInfo ttyPrograms s idx =
     (if idx \<le> int (length (names tabInfo)) then
        (let parsed = parseTabName (names tabInfo ! nat (idx - 1)) in
         Button \<lparr>tabName = displayName parsed,
                 program = (case ttyPrograms idx of
                              Some p \<Rightarrow> p
                            | None \<Rightarrow> detectProgramFromName (process parsed)),
                 isActive = (idx = activeIndex tabInfo),
                 hasAttention = (idx \<in> attentionTabs s)\<rparr>)
      else EmptyButton)"

text \<open>
  The tabs \<open>build (npm)\<close> and \<open>notes (vim)\<close> as \<open>getTabInfo\<close> returns them, and an
  engine with three tracked buttons in the middle of a poll.
\<close>

definition scenarioFetched :: TabInfo where
  "scenarioFetched =
     \<lparr>names = [''build (npm)'', ''notes (vim)''], activeIndex = 1,
      prompts = [False, True], processing = [True, False], frontmost = False,
      ttys = [''/dev/ttys001'', ''/dev/ttys002'']\<rparr>"

definition threeButtons :: engine where
  "threeButtons =
     initialEngine\<lparr>visibleActions := [(''button-1'', 1), (''button-2'', 2), (''button-3'', 3)],
                    logStreamProcess := True, pollInProgress := True\<rparr>"

text \<open>
  The output of \<open>ps\<close> with two coding agents that run under \<open>python3\<close> in the
  foreground of their ttys and a shell in the background, and the two tabs.
\<close>

definition agentPs :: string where
  "agentPs = ''ttys001  Ss+  /usr/bin/python3 /Users/me/.local/share/claude/cli.py'' @ [CHR 0x0A]
           @ ''ttys002  S+   /usr/bin/python3 /opt/codex/cli.py --full-auto'' @ [CHR 0x0A]
           @ ''ttys003  Ss   -zsh'' @ [CHR 0x0A]"

definition agentFetched :: TabInfo where
  "agentFetched =
     \<lparr>names = [''review (python3)'', ''port (python3)''], activeIndex = 1,
      prompts = [False, False], processing = [True, True], frontmost = True,
      ttys = [''/dev/ttys001'', ''/dev/ttys002'']\<rparr>"

section \<open>Tab names on examples\<close>

lemma parseTabName_examples:
  "parseTabName ''Deploy (zsh)'' = \<lparr>displayName = ''Deploy'', process = ''zsh''\<rparr>"
  "parseTabName ''a (b) (c)'' = \<lparr>displayName = ''a (b)'', process = ''c''\<rparr>"
  "parseTabName ''plain'' = \<lparr>displayName = ''plain'', process = []\<rparr>"
  "parseTabName ''(zsh)'' = \<lparr>displayName = ''(zsh)'', process = []\<rparr>"
  by code_simp+

section \<open>Properties of the attention engine\<close>

subsection \<open>The main loop\<close>

lemma attentionStep_frame:
  "pollCount (attentionStep ti v w i s) = pollCount s"
  "notificationWindowEnd (attentionStep ti v w i s) = notificationWindowEnd s"
  "notificationPending (attentionStep ti v w i s) = notificationPending s"
  "notificationProject (attentionStep ti v w i s) = notificationProject s"
  "logStreamProcess (attentionStep ti v w i s) = logStreamProcess s"
  "visibleActions (attentionStep ti v w i s) = visibleActions s"
  "pollInProgress (attentionStep ti v w i s) = pollInProgress s"
  by (simp_all add: attentionStep_def Let_def)

lemma attentionLoop_frame:
  "pollCount (forUpto n (attentionStep ti v w) s) = pollCount s"
  "notificationWindowEnd (forUpto n (attentionStep ti v w) s) = notificationWindowEnd s"
  "notificationPending (forUpto n (attentionStep ti v w) s) = notificationPending s"
  "notificationProject (forUpto n (attentionStep ti v w) s) = notificationProject s"
  "logStreamProcess (forUpto n (attentionStep ti v w) s) = logStreamProcess s"
  "visibleActions (forUpto n (attentionStep ti v w) s) = visibleActions s"
  "pollInProgress (forUpto n (attentionStep ti v w) s) = pollInProgress s"
  by (induction n) (simp_all add: attentionStep_frame)

lemma attentionStep_prevPrompt:
  "prevPromptState (attentionStep ti v w i s) t =
     (if t = int i + 1 then Some (boolAt (prompts ti) i) else prevPromptState s t)"
  by (simp add: attentionStep_def Let_def)

lemma attentionStep_prevProcessing:
  "prevProcessingState (attentionStep ti v w i s) t =
     (if t = int i + 1 then Some (boolAt (processing ti) i) else prevProcessingState s t)"
  by (simp add: attentionStep_def Let_def)

lemma attentionStep_lastProcessing:
  "lastProcessingPoll (attentionStep ti v w i s) t =
     (if t = int i + 1 \<and> boolAt (processing ti) i then Some (pollCount s)
      else lastProcessingPoll s t)"
  by (simp add: attentionStep_def Let_def)

lemma attentionStep_flagged:
  "t \<in> attentionTabs (attentionStep ti v w i s) \<longleftrightarrow>
     (if t = int i + 1
      then t \<noteq> v \<and> (t \<in> attentionTabs s \<or>
             (0 < pollCount s \<and> w \<and> (promptRisingEdge ti s t \<or> processingFallingEdge ti s t)))
      else t \<in> attentionTabs s)"
  by (auto simp add: attentionStep_def Let_def promptRisingEdge_def processingFallingEdge_def
        wasAtPrompt_def wasProcessing_def)

lemma int_le_Suc_other: "t \<noteq> int n + 1 \<Longrightarrow> (t \<le> int (Suc n)) = (t \<le> int n)"
  by auto

lemma attentionLoop_prevPrompt:
  "prevPromptState (forUpto n (attentionStep ti v w) s) t =
     (if 1 \<le> t \<and> t \<le> int n then Some (boolAt (prompts ti) (nat (t - 1)))
      else prevPromptState s t)"
  by (induction n) (auto simp add: attentionStep_prevPrompt)

lemma attentionLoop_prevProcessing:
  "prevProcessingState (forUpto n (attentionStep ti v w) s) t =
     (if 1 \<le> t \<and> t \<le> int n then Some (boolAt (processing ti) (nat (t - 1)))
      else prevProcessingState s t)"
  by (induction n) (auto simp add: attentionStep_prevProcessing)

lemma attentionLoop_flagged:
  "t \<in> attentionTabs (forUpto n (attentionStep ti v w) s) \<longleftrightarrow>
     (if 1 \<le> t \<and> t \<le> int n
      then t \<noteq> v \<and> (t \<in> attentionTabs s \<or>
             (0 < pollCount s \<and> w \<and> (promptRisingEdge ti s t \<or> processingFallingEdge ti s t)))
      else t \<in> attentionTabs s)"
proof (induction n)
  case 0
  show ?case by auto
next
  case (Suc n)
  have edges: "promptRisingEdge ti (forUpto n (attentionStep ti v w) s) (int n + 1)
                 = promptRisingEdge ti s (int n + 1)"
       "processingFallingEdge ti (forUpto n (attentionStep ti v w) s) (int n + 1)
                 = processingFallingEdge ti s (int n + 1)"
    by (simp_all add: promptRisingEdge_def processingFallingEdge_def wasAtPrompt_def
          wasProcessing_def attentionLoop_prevPrompt attentionLoop_prevProcessing)
  show ?case
  proof (cases "t = int n + 1")
    case True
    then show ?thesis
      using Suc edges by (simp add: attentionStep_flagged attentionLoop_frame)
  next
    case False
    then show ?thesis
      using Suc int_le_Suc_other[OF False] by (simp add: attentionStep_flagged)
  qed
qed

subsection \<open>The timing heuristic\<close>

lemma timingStep_frame:
  "pollCount (timingStep ti v i s) = pollCount s"
  "notificationWindowEnd (timingStep ti v i s) = notificationWindowEnd s"
  "notificationPending (timingStep ti v i s) = notificationPending s"
  "notificationProject (timingStep ti v i s) = notificationProject s"
  "logStreamProcess (timingStep ti v i s) = logStreamProcess s"
  "visibleActions (timingStep ti v i s) = visibleActions s"
  "pollInProgress (timingStep ti v i s) = pollInProgress s"
  "prevPromptState (timingStep ti v i s) = prevPromptState s"
  "prevProcessingState (timingStep ti v i s) = prevProcessingState s"
  "lastProcessingPoll (timingStep ti v i s) = lastProcessingPoll s"
  by (simp_all add: timingStep_def Let_def split: option.split)

lemma timingLoop_frame:
  "pollCount (forUpto n (timingStep ti v) s) = pollCount s"
  "notificationWindowEnd (forUpto n (timingStep ti v) s) = notificationWindowEnd s"
  "notificationPending (forUpto n (timingStep ti v) s) = notificationPending s"
  "notificationProject (forUpto n (timingStep ti v) s) = notificationProject s"
  "logStreamProcess (forUpto n (timingStep ti v) s) = logStreamProcess s"
  "visibleActions (forUpto n (timingStep ti v) s) = visibleActions s"
  "pollInProgress (forUpto n (timingStep ti v) s) = pollInProgress s"
  "prevPromptState (forUpto n (timingStep ti v) s) = prevPromptState s"
  "prevProcessingState (forUpto n (timingStep ti v) s) = prevProcessingState s"
  "lastProcessingPoll (forUpto n (timingStep ti v) s) = lastProcessingPoll s"
  by (induction n) (simp_all add: timingStep_frame)

lemma timingStep_flagged:
  "t \<in> attentionTabs (timingStep ti v i s) \<longleftrightarrow>
     t \<in> attentionTabs s \<or>
     (t = int i + 1 \<and> t \<noteq> v \<and> \<not> boolAt (prompts ti) i \<and> \<not> boolAt (processing ti) i
      \<and> (case lastProcessingPoll s t of None \<Rightarrow> False | Some p \<Rightarrow> pollCount s - p \<le> 3))"
  by (auto simp add: timingStep_def Let_def split: option.splits)

lemma timingLoop_flagged:
  "t \<in> attentionTabs (forUpto n (timingStep ti v) s) \<longleftrightarrow>
     t \<in> attentionTabs s \<or>
     (1 \<le> t \<and> t \<le> int n \<and> t \<noteq> v
      \<and> \<not> boolAt (prompts ti) (nat (t - 1)) \<and> \<not> boolAt (processing ti) (nat (t - 1))
      \<and> (case lastProcessingPoll s t of None \<Rightarrow> False | Some p \<Rightarrow> pollCount s - p \<le> 3))"
proof (induction n)
  case 0
  show ?case by auto
next
  case (Suc n)
  show ?case
  proof (cases "t = int n + 1")
    case True
    then show ?thesis
      using Suc by (auto simp add: timingStep_flagged timingLoop_frame split: option.splits)
  next
    case False
    then show ?thesis
      using Suc int_le_Suc_other[OF False] by (simp add: timingStep_flagged timingLoop_frame)
  qed
qed

lemma applyTimingHeuristic_flagged:
  "t \<in> attentionTabs (applyTimingHeuristic ti v s) \<longleftrightarrow>
     t \<in> attentionTabs s \<or> recentlyFinished ti v s t"
  by (simp add: applyTimingHeuristic_def timingLoop_flagged recentlyFinished_def isTabOf_def
        cong: option.case_cong)

lemma applyTimingHeuristic_frame:
  "pollCount (applyTimingHeuristic ti v s) = pollCount s"
  "notificationWindowEnd (applyTimingHeuristic ti v s) = pollCount s + 4"
  "notificationPending (applyTimingHeuristic ti v s) = notificationPending s"
  "notificationProject (applyTimingHeuristic ti v s) = notificationProject s"
  "logStreamProcess (applyTimingHeuristic ti v s) = logStreamProcess s"
  "visibleActions (applyTimingHeuristic ti v s) = visibleActions s"
  "pollInProgress (applyTimingHeuristic ti v s) = pollInProgress s"
  "prevPromptState (applyTimingHeuristic ti v s) = prevPromptState s"
  "prevProcessingState (applyTimingHeuristic ti v s) = prevProcessingState s"
  "lastProcessingPoll (applyTimingHeuristic ti v s) = lastProcessingPoll s"
  by (simp_all add: applyTimingHeuristic_def timingLoop_frame NOTIFICATION_WINDOW_POLLS_def)

subsection \<open>The project match\<close>

lemma projectStep_frame:
  "pollCount (fst (projectStep ti v h i sm)) = pollCount (fst sm)"
  "notificationWindowEnd (fst (projectStep ti v h i sm)) = notificationWindowEnd (fst sm)"
  "notificationPending (fst (projectStep ti v h i sm)) = notificationPending (fst sm)"
  "notificationProject (fst (projectStep ti v h i sm)) = notificationProject (fst sm)"
  "logStreamProcess (fst (projectStep ti v h i sm)) = logStreamProcess (fst sm)"
  "visibleActions (fst (projectStep ti v h i sm)) = visibleActions (fst sm)"
  "pollInProgress (fst (projectStep ti v h i sm)) = pollInProgress (fst sm)"
  "prevPromptState (fst (projectStep ti v h i sm)) = prevPromptState (fst sm)"
  "prevProcessingState (fst (projectStep ti v h i sm)) = prevProcessingState (fst sm)"
  "lastProcessingPoll (fst (projectStep ti v h i sm)) = lastProcessingPoll (fst sm)"
  by (simp_all add: projectStep_def Let_def)

lemma projectLoop_frame:
  "pollCount (fst (forUpto n (projectStep ti v h) sm)) = pollCount (fst sm)"
  "notificationWindowEnd (fst (forUpto n (projectStep ti v h) sm)) = notificationWindowEnd (fst sm)"
  "notificationPending (fst (forUpto n (projectStep ti v h) sm)) = notificationPending (fst sm)"
  "notificationProject (fst (forUpto n (projectStep ti v h) sm)) = notificationProject (fst sm)"
  "logStreamProcess (fst (forUpto n (projectStep ti v h) sm)) = logStreamProcess (fst sm)"
  "visibleActions (fst (forUpto n (projectStep ti v h) sm)) = visibleActions (fst sm)"
  "pollInProgress (fst (forUpto n (projectStep ti v h) sm)) = pollInProgress (fst sm)"
  "prevPromptState (fst (forUpto n (projectStep ti v h) sm)) = prevPromptState (fst sm)"
  "prevProcessingState (fst (forUpto n (projectStep ti v h) sm)) = prevProcessingState (fst sm)"
  "lastProcessingPoll (fst (forUpto n (projectStep ti v h) sm)) = lastProcessingPoll (fst sm)"
  by (induction n) (simp_all add: projectStep_frame)

lemma projectStep_flagged:
  "t \<in> attentionTabs (fst (projectStep ti v h i sm)) \<longleftrightarrow>
     t \<in> attentionTabs (fst sm) \<or>
     (t = int i + 1 \<and> t \<noteq> v \<and> matchesProject (names ti ! i) h)"
  by (auto simp add: projectStep_def Let_def)

lemma projectStep_matched:
  "snd (projectStep ti v h i sm) \<longleftrightarrow>
     snd sm \<or> (int i + 1 \<noteq> v \<and> matchesProject (names ti ! i) h)"
  by (auto simp add: projectStep_def Let_def)

lemma projectLoop_flagged:
  "t \<in> attentionTabs (fst (forUpto n (projectStep ti v h) sm)) \<longleftrightarrow>
     t \<in> attentionTabs (fst sm) \<or>
     (1 \<le> t \<and> t \<le> int n \<and> t \<noteq> v \<and> matchesProject (names ti ! nat (t - 1)) h)"
proof (induction n)
  case 0
  show ?case by auto
next
  case (Suc n)
  show ?case
  proof (cases "t = int n + 1")
    case True
    then show ?thesis
      using Suc by (simp add: projectStep_flagged)
  next
    case False
    then show ?thesis
      using Suc int_le_Suc_other[OF False] by (simp add: projectStep_flagged)
  qed
qed

lemma projectLoop_matched:
  "snd (forUpto n (projectStep ti v h) sm) \<longleftrightarrow>
     snd sm \<or> (\<exists>t. 1 \<le> t \<and> t \<le> int n \<and> t \<noteq> v \<and> matchesProject (names ti ! nat (t - 1)) h)"
proof (induction n)
  case 0
  show ?case by auto
next
  case (Suc n)
  have split: "(\<exists>t. 1 \<le> t \<and> t \<le> int (Suc n) \<and> t \<noteq> v \<and> matchesProject (names ti ! nat (t - 1)) h)
      \<longleftrightarrow> (\<exists>t. 1 \<le> t \<and> t \<le> int n \<and> t \<noteq> v \<and> matchesProject (names ti ! nat (t - 1)) h)
          \<or> (int n + 1 \<noteq> v \<and> matchesProject (names ti ! n) h)"
    (is "?L \<longleftrightarrow> ?A \<or> ?B")
  proof
    assume ?L
    then obtain t where t: "1 \<le> t" "t \<le> int (Suc n)" "t \<noteq> v"
      "matchesProject (names ti ! nat (t - 1)) h" by blast
    show "?A \<or> ?B"
    proof (cases "t = int n + 1")
      case True
      with t show ?thesis by simp
    next
      case False
      with t have "t \<le> int n" by simp
      with t show ?thesis by blast
    qed
  next
    assume "?A \<or> ?B"
    then show ?L
    proof
      assume ?A
      then obtain t where "1 \<le> t" "t \<le> int n" "t \<noteq> v"
        "matchesProject (names ti ! nat (t - 1)) h" by blast
      then show ?L by (intro exI[of _ t]) simp
    next
      assume ?B
      then show ?L by (intro exI[of _ "int n + 1"]) simp
    qed
  qed
  have "snd (forUpto (Suc n) (projectStep ti v h) sm)
          \<longleftrightarrow> snd (forUpto n (projectStep ti v h) sm) \<or> ?B"
    by (simp add: projectStep_matched)
  also have "\<dots> \<longleftrightarrow> (snd sm \<or> ?A) \<or> ?B"
    by (simp only: Suc)
  also have "\<dots> \<longleftrightarrow> snd sm \<or> ?L"
    by (simp only: split disj_assoc)
  finally show ?case .
qed

subsection \<open>Consuming the pending notification\<close>

lemma consumeNotification_frame:
  "pollCount (consumeNotification ti v s) = pollCount s"
  "logStreamProcess (consumeNotification ti v s) = logStreamProcess s"
  "visibleActions (consumeNotification ti v s) = visibleActions s"
  "pollInProgress (consumeNotification ti v s) = pollInProgress s"
  "prevPromptState (consumeNotification ti v s) = prevPromptState s"
  "prevProcessingState (consumeNotification ti v s) = prevProcessingState s"
  "lastProcessingPoll (consumeNotification ti v s) = lastProcessingPoll s"
  by (simp_all add: consumeNotification_def Let_def applyTimingHeuristic_frame
        projectLoop_frame split: option.split)

lemma consumeNotification_pending:
  "notificationPending (consumeNotification ti v s) = False"
  by (simp add: consumeNotification_def Let_def applyTimingHeuristic_frame
        projectLoop_frame split: option.split)

lemma consumeNotification_idle:
  "\<not> notificationPending s \<Longrightarrow> consumeNotification ti v s = s"
  by (simp add: consumeNotification_def)

lemma edges_consumeNotification:
  "promptRisingEdge ti (consumeNotification ti' v s) t = promptRisingEdge ti s t"
  "processingFallingEdge ti (consumeNotification ti' v s) t = processingFallingEdge ti s t"
  by (simp_all add: promptRisingEdge_def processingFallingEdge_def wasAtPrompt_def
        wasProcessing_def consumeNotification_frame)

lemma consumeNotification_timing:
  assumes "notificationPending s"
    and "notificationProject s = None \<or> notificationProject s = Some []
         \<or> (\<exists>h. notificationProject s = Some h \<and> (\<forall>t. \<not> projectMatched ti v h t))"
  shows "notificationWindowEnd (consumeNotification ti v s) = pollCount s + 4"
    and "t \<in> attentionTabs (consumeNotification ti v s)
           \<longleftrightarrow> t \<in> attentionTabs s \<or> recentlyFinished ti v s t"
proof -
  let ?s1 = "s\<lparr>notificationPending := False\<rparr>"
  consider (none) "notificationProject s = None" | (empty) "notificationProject s = Some []"
    | (miss) h where "notificationProject s = Some h" "h \<noteq> []" "\<forall>t. \<not> projectMatched ti v h t"
    using assms(2) by (cases "notificationProject s") auto
  then have "notificationWindowEnd (consumeNotification ti v s) = pollCount s + 4
     \<and> (t \<in> attentionTabs (consumeNotification ti v s)
           \<longleftrightarrow> t \<in> attentionTabs s \<or> recentlyFinished ti v s t)"
  proof cases
    case none
    then show ?thesis
      using assms(1)
      by (simp add: consumeNotification_def applyTimingHeuristic_frame
            applyTimingHeuristic_flagged recentlyFinished_def cong: option.case_cong)
  next
    case empty
    then show ?thesis
      using assms(1)
      by (simp add: consumeNotification_def applyTimingHeuristic_frame
            applyTimingHeuristic_flagged recentlyFinished_def cong: option.case_cong)
  next
    case miss
    let ?sm = "forUpto (length (names ti)) (projectStep ti v h) (?s1, False)"
    have nomatch: "\<not> snd ?sm"
      using miss(3) by (simp add: projectLoop_matched projectMatched_def isTabOf_def)
    have same: "\<And>u. u \<in> attentionTabs (fst ?sm) \<longleftrightarrow> u \<in> attentionTabs s"
      using miss(3) by (auto simp add: projectLoop_flagged projectMatched_def isTabOf_def)
    have eq: "consumeNotification ti v s
                = (applyTimingHeuristic ti v (fst ?sm))\<lparr>notificationProject := None\<rparr>"
      using assms(1) miss(1,2) nomatch by (simp add: consumeNotification_def Let_def)
    show ?thesis
      by (simp add: eq applyTimingHeuristic_frame applyTimingHeuristic_flagged
            projectLoop_frame same recentlyFinished_def cong: option.case_cong)
  qed
  then show "notificationWindowEnd (consumeNotification ti v s) = pollCount s + 4"
    and "t \<in> attentionTabs (consumeNotification ti v s)
           \<longleftrightarrow> t \<in> attentionTabs s \<or> recentlyFinished ti v s t"
    by simp_all
qed

lemma consumeNotification_project:
  assumes "notificationPending s" and "notificationProject s = Some h" and "h \<noteq> []"
    and "projectMatched ti v h u"
  shows "notificationWindowEnd (consumeNotification ti v s) = notificationWindowEnd s"
    and "t \<in> attentionTabs (consumeNotification ti v s)
           \<longleftrightarrow> t \<in> attentionTabs s \<or> projectMatched ti v h t"
proof -
  let ?s1 = "s\<lparr>notificationPending := False\<rparr>"
  let ?sm = "forUpto (length (names ti)) (projectStep ti v h) (?s1, False)"
  have matched: "snd ?sm"
    using assms(4) by (auto simp add: projectLoop_matched projectMatched_def isTabOf_def)
  have eq: "consumeNotification ti v s = (fst ?sm)\<lparr>notificationProject := None\<rparr>"
    using assms(1-3) matched by (simp add: consumeNotification_def Let_def)
  show "notificationWindowEnd (consumeNotification ti v s) = notificationWindowEnd s"
    by (simp add: eq projectLoop_frame)
  show "t \<in> attentionTabs (consumeNotification ti v s)
           \<longleftrightarrow> t \<in> attentionTabs s \<or> projectMatched ti v h t"
    by (simp add: eq projectLoop_flagged projectMatched_def isTabOf_def)
qed

subsection \<open>One call of updateAttention\<close>

lemma updateAttention_pollCount: "pollCount (updateAttention ti s) = pollCount s + 1"
  by (simp add: updateAttention_def Let_def startLogStream_def attentionLoop_frame
        consumeNotification_frame)

lemma updateAttention_pending: "notificationPending (updateAttention ti s) = False"
  by (simp add: updateAttention_def Let_def startLogStream_def attentionLoop_frame
        consumeNotification_pending)

lemma updateAttention_windowEnd:
  "notificationWindowEnd (updateAttention ti s)
     = notificationWindowEnd (consumeNotification ti (visibleTabOf ti) s)"
  by (simp add: updateAttention_def Let_def startLogStream_def attentionLoop_frame)

lemma updateAttention_flagged:
  "t \<in> attentionTabs (updateAttention ti s) \<longleftrightarrow>
     (if isTabOf ti t
      then t \<noteq> visibleTabOf ti \<and>
           (t \<in> attentionTabs (consumeNotification ti (visibleTabOf ti) s) \<or>
            (0 < pollCount s
             \<and> pollCount s \<le> notificationWindowEnd (consumeNotification ti (visibleTabOf ti) s)
             \<and> (promptRisingEdge ti s t \<or> processingFallingEdge ti s t)))
      else t \<in> attentionTabs (consumeNotification ti (visibleTabOf ti) s))"
  by (simp add: updateAttention_def Let_def startLogStream_def attentionLoop_flagged
        isTabOf_def consumeNotification_frame edges_consumeNotification)

lemma updateAttention_prev:
  "prevPromptState (updateAttention ti s) t =
     (if isTabOf ti t then Some (boolAt (prompts ti) (nat (t - 1))) else prevPromptState s t)"
  "prevProcessingState (updateAttention ti s) t =
     (if isTabOf ti t then Some (boolAt (processing ti) (nat (t - 1)))
      else prevProcessingState s t)"
  by (simp_all add: updateAttention_def Let_def startLogStream_def attentionLoop_prevPrompt
        attentionLoop_prevProcessing isTabOf_def consumeNotification_frame)

lemma no_edge_after_update:
  "isTabOf ti t \<Longrightarrow> \<not> promptRisingEdge ti (updateAttention ti s) t"
  "isTabOf ti t \<Longrightarrow> \<not> processingFallingEdge ti (updateAttention ti s) t"
  by (simp_all add: promptRisingEdge_def processingFallingEdge_def wasAtPrompt_def
        wasProcessing_def updateAttention_prev)

section \<open>Visibility, idempotence and the notification window\<close>

text \<open>
  Flags are tab indices: the notification block and the main loop only add tabs of
  the snapshot, so a flagged set of indices from 1 upwards stays one.
\<close>

lemma consumeNotification_adds_tabs:
  assumes "t \<in> attentionTabs (consumeNotification ti v s)"
  shows "t \<in> attentionTabs s \<or> isTabOf ti t"
proof (cases "notificationPending s")
  case False
  with assms show ?thesis by (simp add: consumeNotification_idle)
next
  case pending: True
  show ?thesis
  proof (cases "notificationProject s = None \<or> notificationProject s = Some []
         \<or> (\<exists>h. notificationProject s = Some h \<and> (\<forall>u. \<not> projectMatched ti v h u))")
    case True
    from consumeNotification_timing(2) [OF pending True, of t] assms
    show ?thesis by (auto simp add: recentlyFinished_def)
  next
    case False
    then obtain h u where h: "notificationProject s = Some h" "h \<noteq> []"
      "projectMatched ti v h u"
      by (cases "notificationProject s") auto
    from consumeNotification_project(2) [OF pending h, of t] assms
    show ?thesis by (auto simp add: projectMatched_def)
  qed
qed

lemma updateAttention_flags_positive:
  assumes "\<forall>t \<in> attentionTabs s. 1 \<le> t"
  shows "\<forall>t \<in> attentionTabs (updateAttention ti s). 1 \<le> t"
proof
  fix t
  assume "t \<in> attentionTabs (updateAttention ti s)"
  then have "isTabOf ti t \<or> t \<in> attentionTabs (consumeNotification ti (visibleTabOf ti) s)"
    by (simp add: updateAttention_flagged split: if_splits)
  then have "isTabOf ti t \<or> t \<in> attentionTabs s"
    using consumeNotification_adds_tabs by blast
  then show "1 \<le> t"
    using assms by (auto simp add: isTabOf_def)
qed

text \<open>
  On a snapshot whose active index is 0 (no tab) or one of its tabs, with iTerm2
  frontmost, the active tab is not flagged after \<open>updateAttention\<close> returns, whatever
  the pending notification, the window and the edges of this poll are.
\<close>

lemma visible_tab_cleared_on_consistent_snapshot:
  assumes "frontmost ti" and "0 \<le> activeIndex ti"
    and "activeIndex ti \<le> int (length (names ti))"
    and "\<forall>t \<in> attentionTabs s. 1 \<le> t"
  shows "activeIndex ti \<notin> attentionTabs (updateAttention ti s)"
proof (cases "1 \<le> activeIndex ti")
  case True
  with assms(1,3) show ?thesis
    by (simp add: updateAttention_flagged isTabOf_def visibleTabOf_def)
next
  case False
  with assms(2) have z: "activeIndex ti = 0" by simp
  have "\<forall>t \<in> attentionTabs (updateAttention ti s). 1 \<le> t"
    using assms(4) by (rule updateAttention_flags_positive)
  then show ?thesis
    using z by auto
qed

text \<open>
  C1: the visible tab (the active index, when iTerm2 is frontmost) is not flagged
  after \<open>updateAttention\<close> returns, for every snapshot and every engine state. The
  code departs from it. \<open>updateAttention\<close> clears the visible tab inside its loop over
  \<open>names\<close>, and \<open>getTabInfo\<close> drops empty names from \<open>names\<close> but nothing from
  \<open>prompts\<close> and \<open>processing\<close>, so the active index can lie beyond \<open>names.length\<close>.
  Tab 2 is flagged in the background; then the first tab's name becomes empty and
  iTerm2 comes to the front with tab 2 selected: tab 2 is visible and still flagged
  after \<open>updateAttention\<close> returns.
\<close>

theorem visible_tab_flag_survives:
  "frontmost shrunkSnapshot
   \<and> activeIndex shrunkSnapshot
        \<in> attentionTabs (updateAttention shrunkSnapshot
             (updateAttention backgroundSnapshot (signalled (Some ''build''))))"
  by code_simp

text \<open>
  C6. Two calls of \<open>updateAttention\<close> in succession with iTerm2 frontmost, the same
  snapshot and no notification pending: the second call leaves the flagged set as the
  first call left it, and each call advances \<open>pollCount\<close> by exactly 1.
\<close>

theorem updateAttention_twice:
  assumes "\<not> notificationPending s" and "frontmost ti"
  shows "attentionTabs (updateAttention ti (updateAttention ti s))
           = attentionTabs (updateAttention ti s)
         \<and> pollCount (updateAttention ti s) = pollCount s + 1
         \<and> pollCount (updateAttention ti (updateAttention ti s))
             = pollCount (updateAttention ti s) + 1"
proof -
  let ?s1 = "updateAttention ti s"
  have idle: "consumeNotification ti (visibleTabOf ti) ?s1 = ?s1"
    by (simp add: consumeNotification_idle updateAttention_pending)
  have "t \<in> attentionTabs (updateAttention ti ?s1) \<longleftrightarrow> t \<in> attentionTabs ?s1" for t
  proof (cases "isTabOf ti t")
    case True
    have "t \<in> attentionTabs (updateAttention ti ?s1)
            \<longleftrightarrow> t \<noteq> visibleTabOf ti \<and> t \<in> attentionTabs ?s1"
      using True by (simp add: updateAttention_flagged[of t ti ?s1] idle no_edge_after_update)
    moreover have "t \<in> attentionTabs ?s1 \<Longrightarrow> t \<noteq> visibleTabOf ti"
      using True by (simp add: updateAttention_flagged[of t ti s])
    ultimately show ?thesis by blast
  next
    case False
    then show ?thesis
      by (simp add: updateAttention_flagged[of t ti ?s1] idle)
  qed
  then have "attentionTabs (updateAttention ti ?s1) = attentionTabs ?s1"
    by blast
  then show ?thesis
    by (simp add: updateAttention_pollCount)
qed

text \<open>
  The theorem on the two-tab window in front with the first tab selected, from the
  engine in which tab 2 was flagged in the background: tab 2 stays flagged through
  both calls and \<open>pollCount\<close> goes from 1 to 2 to 3.
\<close>

theorem updateAttention_twice_witness:
  "\<not> notificationPending buildFlagged
   \<and> frontmost firstTabFront
   \<and> attentionTabs (updateAttention firstTabFront buildFlagged) = {2}
   \<and> attentionTabs (updateAttention firstTabFront (updateAttention firstTabFront buildFlagged))
        = attentionTabs (updateAttention firstTabFront buildFlagged)
   \<and> pollCount buildFlagged = 1
   \<and> pollCount (updateAttention firstTabFront buildFlagged) = 2
   \<and> pollCount (updateAttention firstTabFront (updateAttention firstTabFront buildFlagged)) = 3"
proof -
  have h1: "\<not> notificationPending buildFlagged"
    by (simp add: buildFlagged_def updateAttention_pending)
  have h2: "frontmost firstTabFront"
    by (simp add: firstTabFront_def frontSnapshot_def)
  have pc: "pollCount buildFlagged = 1"
    by (simp add: buildFlagged_def updateAttention_pollCount signalled_def initialEngine_def)
  have fl: "attentionTabs (updateAttention firstTabFront buildFlagged) = {2}"
    by code_simp
  show ?thesis
    using h1 h2 pc fl updateAttention_twice [OF h1 h2] by simp
qed

text \<open>
  C2 (amended). The two edge rules (rising edge on "at shell prompt", falling edge on
  "is processing", against the values recorded at the previous poll) add a tab to the
  flagged set if and only if the tab is one of the snapshot's, is not visible,
  \<open>pollCount > 0\<close> and \<open>pollCount \<le> notificationWindowEnd\<close>: a tab that is not flagged
  when the main loop starts is flagged when \<open>updateAttention\<close> returns exactly when it
  shows one of the two edges under these conditions. In particular, when no
  notification is pending and the window was opened at \<open>openedAtPoll\<close>, no tab is added
  on a poll with \<open>pollCount > openedAtPoll + 4\<close>.
\<close>

theorem edge_flagging_window:
  "(t \<notin> attentionTabs (consumeNotification ti (visibleTabOf ti) s) \<longrightarrow>
      (t \<in> attentionTabs (updateAttention ti s) \<longleftrightarrow>
         isTabOf ti t \<and> t \<noteq> visibleTabOf ti \<and> 0 < pollCount s
         \<and> pollCount s \<le> notificationWindowEnd (consumeNotification ti (visibleTabOf ti) s)
         \<and> (promptRisingEdge ti s t \<or> processingFallingEdge ti s t)))
   \<and> (\<not> notificationPending s
        \<and> notificationWindowEnd s = openedAtPoll + NOTIFICATION_WINDOW_POLLS
        \<and> openedAtPoll + 4 < pollCount s \<longrightarrow>
      attentionTabs (updateAttention ti s) \<subseteq> attentionTabs s)"
proof (intro conjI impI)
  assume "t \<notin> attentionTabs (consumeNotification ti (visibleTabOf ti) s)"
  then show "t \<in> attentionTabs (updateAttention ti s) \<longleftrightarrow>
         isTabOf ti t \<and> t \<noteq> visibleTabOf ti \<and> 0 < pollCount s
         \<and> pollCount s \<le> notificationWindowEnd (consumeNotification ti (visibleTabOf ti) s)
         \<and> (promptRisingEdge ti s t \<or> processingFallingEdge ti s t)"
    by (simp add: updateAttention_flagged)
next
  assume a: "\<not> notificationPending s
        \<and> notificationWindowEnd s = openedAtPoll + NOTIFICATION_WINDOW_POLLS
        \<and> openedAtPoll + 4 < pollCount s"
  then have idle: "consumeNotification ti (visibleTabOf ti) s = s"
    by (simp add: consumeNotification_idle)
  have closed: "\<not> pollCount s \<le> notificationWindowEnd s"
    using a by (simp add: NOTIFICATION_WINDOW_POLLS_def)
  show "attentionTabs (updateAttention ti s) \<subseteq> attentionTabs s"
  proof
    fix u
    assume "u \<in> attentionTabs (updateAttention ti s)"
    then show "u \<in> attentionTabs s"
      using closed by (simp add: updateAttention_flagged idle split: if_splits)
  qed
qed

text \<open>
  The theorem on two polls with the same edges on tab 2. At poll 1, where the window
  has just been opened, the rising prompt edge flags the tab; at poll 5 of a window
  opened at poll 0 nothing is added.
\<close>

theorem edge_flagging_window_witness:
  "2 \<notin> attentionTabs
          (consumeNotification promptSnapshot (visibleTabOf promptSnapshot) windowOpenEngine)
   \<and> promptRisingEdge promptSnapshot windowOpenEngine 2
   \<and> 2 \<in> attentionTabs (updateAttention promptSnapshot windowOpenEngine)
   \<and> \<not> notificationPending windowClosedEngine
   \<and> notificationWindowEnd windowClosedEngine = 0 + NOTIFICATION_WINDOW_POLLS
   \<and> 0 + 4 < pollCount windowClosedEngine
   \<and> processingFallingEdge promptSnapshot windowClosedEngine 2
   \<and> attentionTabs (updateAttention promptSnapshot windowClosedEngine)
        \<subseteq> attentionTabs windowClosedEngine"
proof -
  have h1: "2 \<notin> attentionTabs
          (consumeNotification promptSnapshot (visibleTabOf promptSnapshot) windowOpenEngine)"
    by code_simp
  have e1: "promptRisingEdge promptSnapshot windowOpenEngine 2"
    by code_simp
  have c1: "isTabOf promptSnapshot 2" "2 \<noteq> visibleTabOf promptSnapshot"
    "0 < pollCount windowOpenEngine"
    "pollCount windowOpenEngine \<le> notificationWindowEnd
       (consumeNotification promptSnapshot (visibleTabOf promptSnapshot) windowOpenEngine)"
    by code_simp+
  have h2: "\<not> notificationPending windowClosedEngine"
    "notificationWindowEnd windowClosedEngine = 0 + NOTIFICATION_WINDOW_POLLS"
    "0 + 4 < pollCount windowClosedEngine"
    by code_simp+
  have e2: "processingFallingEdge promptSnapshot windowClosedEngine 2"
    by code_simp
  show ?thesis
    using h1 e1 c1 h2 e2
      edge_flagging_window [of 2 promptSnapshot windowOpenEngine 0]
      edge_flagging_window [of 2 promptSnapshot windowClosedEngine 0]
    by blast
qed

text \<open>
  C2 as stated fails at the first poll: the code guards the edge rules with
  \<open>pollCount > 0\<close>. A notification pending at poll 0 opens the window (its end is 4);
  tab 2 is not visible and is at its prompt with nothing recorded before, yet it is
  not flagged.
\<close>

theorem first_poll_edge_not_flagged:
  "2 \<noteq> visibleTabOf promptSnapshot
   \<and> pollCount (signalled None)
        \<le> notificationWindowEnd
             (consumeNotification promptSnapshot (visibleTabOf promptSnapshot) (signalled None))
   \<and> promptRisingEdge promptSnapshot (signalled None) 2
   \<and> 2 \<notin> attentionTabs (updateAttention promptSnapshot (signalled None))"
  by code_simp

text \<open>
  C3. When the pending notification has no hint (\<open>null\<close> or empty), or its hint
  matches no tab that is not visible, the timing heuristic runs: the window end becomes
  \<open>pollCount + 4\<close>, and the tabs flagged before the main loop are those already flagged
  and exactly the tabs that are not visible, neither processing nor at a shell prompt,
  and last seen processing at a poll \<open>P\<close> with \<open>pollCount - P \<le> 3\<close>; a tab with no
  recorded processing poll is not among them. These tabs are still flagged when
  \<open>updateAttention\<close> returns.
\<close>

theorem timing_heuristic_flags:
  assumes "notificationPending s"
    and "notificationProject s = None \<or> notificationProject s = Some []
         \<or> (\<exists>h. notificationProject s = Some h
                \<and> (\<forall>t. \<not> projectMatched ti (visibleTabOf ti) h t))"
  shows "notificationWindowEnd (updateAttention ti s) = pollCount s + 4
       \<and> (\<forall>t. t \<in> attentionTabs (consumeNotification ti (visibleTabOf ti) s)
               \<longleftrightarrow> t \<in> attentionTabs s \<or> recentlyFinished ti (visibleTabOf ti) s t)
       \<and> (\<forall>t. recentlyFinished ti (visibleTabOf ti) s t
               \<longrightarrow> t \<in> attentionTabs (updateAttention ti s))"
proof (intro conjI allI impI)
  show "notificationWindowEnd (updateAttention ti s) = pollCount s + 4"
    using consumeNotification_timing(1) [OF assms]
    by (simp add: updateAttention_windowEnd)
next
  fix t
  show "t \<in> attentionTabs (consumeNotification ti (visibleTabOf ti) s)
          \<longleftrightarrow> t \<in> attentionTabs s \<or> recentlyFinished ti (visibleTabOf ti) s t"
    by (rule consumeNotification_timing(2) [OF assms])
next
  fix t
  assume rf: "recentlyFinished ti (visibleTabOf ti) s t"
  then have "isTabOf ti t" "t \<noteq> visibleTabOf ti"
    by (simp_all add: recentlyFinished_def)
  moreover have "t \<in> attentionTabs (consumeNotification ti (visibleTabOf ti) s)"
    using rf consumeNotification_timing(2) [OF assms] by simp
  ultimately show "t \<in> attentionTabs (updateAttention ti s)"
    by (simp add: updateAttention_flagged)
qed

text \<open>
  The theorem at poll 1: tab 2 was processing at poll 0 and is now idle away from the
  prompt, tab 1 has never been seen processing.
\<close>

theorem timing_heuristic_flags_witness:
  "notificationPending windowOpenEngine
   \<and> notificationProject windowOpenEngine = None
   \<and> notificationWindowEnd (updateAttention quietSnapshot windowOpenEngine) = 5
   \<and> recentlyFinished quietSnapshot (visibleTabOf quietSnapshot) windowOpenEngine 2
   \<and> 2 \<in> attentionTabs (updateAttention quietSnapshot windowOpenEngine)
   \<and> \<not> recentlyFinished quietSnapshot (visibleTabOf quietSnapshot) windowOpenEngine 1
   \<and> 1 \<notin> attentionTabs
          (consumeNotification quietSnapshot (visibleTabOf quietSnapshot) windowOpenEngine)"
proof -
  have h1: "notificationPending windowOpenEngine"
    by (simp add: windowOpenEngine_def notified_def)
  have none: "notificationProject windowOpenEngine = None"
    by (simp add: windowOpenEngine_def notified_def)
  have h2: "notificationProject windowOpenEngine = None
     \<or> notificationProject windowOpenEngine = Some []
     \<or> (\<exists>h. notificationProject windowOpenEngine = Some h
            \<and> (\<forall>t. \<not> projectMatched quietSnapshot (visibleTabOf quietSnapshot) h t))"
    using none by simp
  have pc: "pollCount windowOpenEngine = 1"
    by (simp add: windowOpenEngine_def notified_def updateAttention_pollCount
          initialEngine_def)
  have rf: "recentlyFinished quietSnapshot (visibleTabOf quietSnapshot) windowOpenEngine 2"
    "\<not> recentlyFinished quietSnapshot (visibleTabOf quietSnapshot) windowOpenEngine 1"
    "1 \<notin> attentionTabs windowOpenEngine"
    by code_simp+
  show ?thesis
    using h1 none pc rf timing_heuristic_flags [OF h1 h2] by simp
qed

text \<open>
  C4. When the pending notification carries a hint (a non-empty string), every tab that
  is not visible and whose display name, the parenthetical suffix stripped, contains the
  hint as a substring after lower-casing both, is flagged. If at least one such tab
  matches, the timing heuristic does not run: the window end is left as it was and the
  tabs flagged before the main loop are those already flagged and the matching ones.
\<close>

theorem project_match_priority:
  assumes "notificationPending s" and "notificationProject s = Some h" and "h \<noteq> []"
  shows "(\<forall>t. projectMatched ti (visibleTabOf ti) h t
               \<longrightarrow> t \<in> attentionTabs (updateAttention ti s))
       \<and> ((\<exists>u. projectMatched ti (visibleTabOf ti) h u) \<longrightarrow>
            notificationWindowEnd (updateAttention ti s) = notificationWindowEnd s
            \<and> (\<forall>t. t \<in> attentionTabs (consumeNotification ti (visibleTabOf ti) s)
                    \<longleftrightarrow> t \<in> attentionTabs s \<or> projectMatched ti (visibleTabOf ti) h t))"
proof (intro conjI allI impI)
  fix t
  assume m: "projectMatched ti (visibleTabOf ti) h t"
  then have "isTabOf ti t" "t \<noteq> visibleTabOf ti"
    by (simp_all add: projectMatched_def)
  moreover have "t \<in> attentionTabs (consumeNotification ti (visibleTabOf ti) s)"
    using m consumeNotification_project(2) [OF assms m] by simp
  ultimately show "t \<in> attentionTabs (updateAttention ti s)"
    by (simp add: updateAttention_flagged)
next
  assume "\<exists>u. projectMatched ti (visibleTabOf ti) h u"
  then obtain u where m: "projectMatched ti (visibleTabOf ti) h u" ..
  show "notificationWindowEnd (updateAttention ti s) = notificationWindowEnd s"
    using consumeNotification_project(1) [OF assms m]
    by (simp add: updateAttention_windowEnd)
next
  fix t
  assume "\<exists>u. projectMatched ti (visibleTabOf ti) h u"
  then obtain u where m: "projectMatched ti (visibleTabOf ti) h u" ..
  show "t \<in> attentionTabs (consumeNotification ti (visibleTabOf ti) s)
          \<longleftrightarrow> t \<in> attentionTabs s \<or> projectMatched ti (visibleTabOf ti) h t"
    by (rule consumeNotification_project(2) [OF assms m])
qed

text \<open>
  The theorem on the hint \<open>deploy\<close> and the tab \<open>Deploy (zsh)\<close>: tab 1 is flagged, no
  window is opened, and tab 2, which the timing heuristic would flag, is not.
\<close>

theorem project_match_priority_witness:
  "notificationPending deployEngine
   \<and> notificationProject deployEngine = Some ''deploy''
   \<and> projectMatched deployIdle (visibleTabOf deployIdle) ''deploy'' 1
   \<and> 1 \<in> attentionTabs (updateAttention deployIdle deployEngine)
   \<and> notificationWindowEnd (updateAttention deployIdle deployEngine) = - 1
   \<and> recentlyFinished deployIdle (visibleTabOf deployIdle) deployEngine 2
   \<and> 2 \<notin> attentionTabs
          (consumeNotification deployIdle (visibleTabOf deployIdle) deployEngine)"
proof -
  have h1: "notificationPending deployEngine"
    by (simp add: deployEngine_def notified_def)
  have h2: "notificationProject deployEngine = Some ''deploy''"
    by (simp add: deployEngine_def notified_def)
  have h3: "''deploy'' \<noteq> []"
    by simp
  have m: "projectMatched deployIdle (visibleTabOf deployIdle) ''deploy'' 1"
    "\<not> projectMatched deployIdle (visibleTabOf deployIdle) ''deploy'' 2"
    by code_simp+
  have rf: "recentlyFinished deployIdle (visibleTabOf deployIdle) deployEngine 2"
    "2 \<notin> attentionTabs deployEngine"
    "notificationWindowEnd deployEngine = - 1"
    by code_simp+
  note pm = project_match_priority [OF h1 h2 h3, of deployIdle]
  have ex: "\<exists>u. projectMatched deployIdle (visibleTabOf deployIdle) ''deploy'' u"
    using m(1) by (rule exI)
  have a: "1 \<in> attentionTabs (updateAttention deployIdle deployEngine)"
    using pm m(1) by simp
  have b: "notificationWindowEnd (updateAttention deployIdle deployEngine) = - 1"
    using pm ex rf(3) by simp
  have c: "2 \<notin> attentionTabs
          (consumeNotification deployIdle (visibleTabOf deployIdle) deployEngine)"
    using pm ex m(2) rf(2) by simp
  show ?thesis
    using h1 h2 m(1) a b rf(1) c by simp
qed

section \<open>Notification signal\<close>

lemma onLogLine_first:
  assumes "\<not> notificationPending s" and "matchers \<noteq> []"
    and "list_ex (\<lambda>m. includesStr line m) matchers"
    and "\<not> prefix ''Filtering'' line" and "\<not> prefix ''Timestamp'' line" and "trim line \<noteq> []"
  shows "notificationPending (fst (onLogLine matchers event line s))"
    and "notificationProject (fst (onLogLine matchers event line s))
           = (case event of None \<Rightarrow> None | Some e \<Rightarrow> Some (project e))"
  using assms by (simp_all add: onLogLine_def pollTabsBegin_def)

text \<open>
  C5 (amended). If a second matching notification arrives while a signal is already
  pending, the second one is dropped: the handler leaves the engine as it is, so the
  pending flag stays true and the correlation hint stays the one read for the first
  notification; the event file is not read again and no poll is requested.
\<close>

theorem pending_signal_kept:
  assumes "notificationPending s"
  shows "onLogLine matchers event line s = (s, False)"
  using assms by (simp add: onLogLine_def)

text \<open>
  The theorem on the engine in which the event \<open>alpha\<close> is pending, when the same log
  line arrives with the event \<open>beta\<close> in the file.
\<close>

theorem pending_signal_kept_witness:
  "notificationPending alphaPending
   \<and> notificationProject alphaPending = Some ''alpha''
   \<and> onLogLine DEFAULT_NOTIFICATION_MATCHERS (Some betaEvent) logLine alphaPending
       = (alphaPending, False)"
proof -
  have h: "notificationPending alphaPending" "notificationProject alphaPending = Some ''alpha''"
    by code_simp+
  show ?thesis
    using h pending_signal_kept [OF h(1)] by simp
qed

text \<open>
  C5 as stated fails: the handler assigns the hint only under \<open>if (!notificationPending)\<close>,
  so after the second notification the hint is not the one of the second event.
\<close>

theorem second_signal_not_read:
  "notificationPending alphaPending
   \<and> includesStr logLine ''com.googlecode.iterm2''
   \<and> notificationProject
        (fst (onLogLine DEFAULT_NOTIFICATION_MATCHERS (Some betaEvent) logLine alphaPending))
       \<noteq> Some (project betaEvent)"
  by code_simp

section \<open>Program classification\<close>

lemma ttyStep_other: "k \<noteq> int i + 1 \<Longrightarrow> ttyStep tys fg i m k = m k"
  by (simp add: ttyStep_def Let_def split: option.split)

lemma ttyStep_same: "m' k = m k \<Longrightarrow> ttyStep tys fg i m' k = ttyStep tys fg i m k"
  by (auto simp add: ttyStep_def Let_def split: option.split)

lemma ttyLoop_beyond: "int n < k \<Longrightarrow> forUpto n (ttyStep tys fg) m k = m k"
  by (induction n) (simp_all add: ttyStep_other)

lemma ttyLoop_at:
  "i < n \<Longrightarrow> forUpto n (ttyStep tys fg) m (int i + 1) = ttyStep tys fg i m (int i + 1)"
proof (induction n)
  case 0
  then show ?case by simp
next
  case (Suc n)
  show ?case
  proof (cases "i = n")
    case True
    have "forUpto n (ttyStep tys fg) m (int n + 1) = m (int n + 1)"
      by (rule ttyLoop_beyond) simp
    then have "ttyStep tys fg n (forUpto n (ttyStep tys fg) m) (int n + 1)
                 = ttyStep tys fg n m (int n + 1)"
      by (rule ttyStep_same)
    then show ?thesis
      using True by simp
  next
    case False
    with Suc.prems have "i < n" by simp
    with Suc.IH False show ?thesis
      by (simp add: ttyStep_other)
  qed
qed

lemma includes_skip_head:
  assumes "includesStr (c # cs) p" and "p \<noteq> []" and "hd p \<noteq> c"
  shows "includesStr cs p"
proof -
  obtain x xs where p: "p = x # xs" using assms(2) by (cases p) auto
  with assms show ?thesis
    by (simp add: includesStr_def sublist_Cons_right)
qed

lemma includes_dash:
  assumes "includesStr l p" and "p \<noteq> []" and "hd p \<noteq> CHR ''-''"
  shows "includesStr (case l of [] \<Rightarrow> l | c # cs \<Rightarrow> if c = CHR ''-'' then cs else l) p"
proof (cases l)
  case Nil
  with assms show ?thesis by simp
next
  case (Cons c cs)
  with assms show ?thesis
    by (auto dest: includes_skip_head)
qed

lemma dash_includes:
  assumes "includesStr (case l of [] \<Rightarrow> l | c # cs \<Rightarrow> if c = CHR ''-'' then cs else l) p"
  shows "includesStr l p"
proof (cases l)
  case Nil
  with assms show ?thesis by simp
next
  case (Cons c cs)
  with assms show ?thesis
    by (auto simp add: includesStr_def sublist_Cons_right split: if_splits)
qed

lemma detectProgramFromName_agents:
  assumes "p = (case toLowerCase proc of [] \<Rightarrow> toLowerCase proc
                | c # cs \<Rightarrow> if c = CHR ''-'' then cs else toLowerCase proc)"
  shows "includesStr p ''codex'' \<Longrightarrow> detectProgramFromName proc = ''codex''"
    and "\<not> includesStr p ''codex'' \<Longrightarrow> includesStr p ''claude''
           \<Longrightarrow> detectProgramFromName proc = ''claude''"
proof -
  have d: "detectProgramFromName proc =
     (if includesStr p ''codex'' then ''codex''
      else if includesStr p ''claude'' then ''claude''
      else if includesStr p ''python'' then ''python''
      else if includesStr p ''node'' \<or> includesStr p ''npm'' \<or> includesStr p ''npx''
           then ''node''
      else if includesStr p ''ssh'' then ''ssh''
      else if includesStr p ''vim'' \<or> includesStr p ''nvim'' then ''vim''
      else if includesStr p ''zsh'' \<or> includesStr p ''bash'' \<or> includesStr p ''fish''
           then ''shell''
      else ''other'')"
    unfolding detectProgramFromName_def Let_def assms by (rule refl)
  show "includesStr p ''codex'' \<Longrightarrow> detectProgramFromName proc = ''codex''"
    by (simp only: d if_True)
  show "\<not> includesStr p ''codex'' \<Longrightarrow> includesStr p ''claude''
           \<Longrightarrow> detectProgramFromName proc = ''claude''"
    by (simp only: d if_True if_False)
qed

lemma ttyStep_agents:
  assumes "fg (replaceFirst ''/dev/'' [] (tys ! i)) = Some cmds"
    and "combined = toLowerCase (joinWith '' '' cmds)"
  shows "includesStr combined ''claude'' \<Longrightarrow> ttyStep tys fg i m (int i + 1) = Some ''claude''"
    and "\<not> includesStr combined ''claude'' \<Longrightarrow> \<not> includesStr combined ''.local/share/claude/''
           \<Longrightarrow> includesStr combined ''codex''
           \<Longrightarrow> ttyStep tys fg i m (int i + 1) = Some ''codex''"
proof -
  have d: "ttyStep tys fg i m =
     (if includesStr combined ''claude'' \<or> includesStr combined ''.local/share/claude/''
      then m(int i + 1 \<mapsto> ''claude'')
      else if includesStr combined ''codex'' then m(int i + 1 \<mapsto> ''codex'')
      else if includesStr combined ''ssh '' then m(int i + 1 \<mapsto> ''ssh'')
      else if includesStr combined ''vim'' \<or> includesStr combined ''nvim''
           then m(int i + 1 \<mapsto> ''vim'')
      else m)"
    unfolding ttyStep_def Let_def assms(2) by (simp only: assms(1) option.case)
  show "includesStr combined ''claude'' \<Longrightarrow> ttyStep tys fg i m (int i + 1) = Some ''claude''"
    by (simp only: d simp_thms if_True fun_upd_same)
  show "\<not> includesStr combined ''claude'' \<Longrightarrow> \<not> includesStr combined ''.local/share/claude/''
           \<Longrightarrow> includesStr combined ''codex''
           \<Longrightarrow> ttyStep tys fg i m (int i + 1) = Some ''codex''"
    by (simp only: d simp_thms if_True if_False fun_upd_same)
qed

text \<open>
  C7. Classification is first-match-wins with the coding agents first. For a tab whose
  tty has foreground command lines, \<open>matchTtyPrograms\<close> gives \<open>claude\<close> as soon as the
  lower-cased command lines contain \<open>claude\<close>, and \<open>codex\<close> when they contain \<open>codex\<close>
  and not \<open>claude\<close>, whatever interpreter path they also contain; the title fallback
  \<open>detectProgramFromName\<close> gives \<open>codex\<close>, then \<open>claude\<close>, before it looks for
  \<open>python\<close> or \<open>node\<close>.
\<close>

theorem agent_before_interpreter:
  assumes "i < length ttyList" and "psOutput \<noteq> []"
    and "groupForeground psOutput (replaceFirst ''/dev/'' [] (ttyList ! i)) = Some cmds"
  shows "(includesStr (toLowerCase (joinWith '' '' cmds)) ''claude''
            \<longrightarrow> matchTtyPrograms ttyList psOutput (int i + 1) = Some ''claude'')
       \<and> (includesStr (toLowerCase (joinWith '' '' cmds)) ''codex''
            \<and> \<not> includesStr (toLowerCase (joinWith '' '' cmds)) ''claude''
            \<longrightarrow> matchTtyPrograms ttyList psOutput (int i + 1) = Some ''codex'')
       \<and> (includesStr (toLowerCase proc) ''codex''
            \<longrightarrow> detectProgramFromName proc = ''codex'')
       \<and> (includesStr (toLowerCase proc) ''claude''
            \<and> \<not> includesStr (toLowerCase proc) ''codex''
            \<longrightarrow> detectProgramFromName proc = ''claude'')"
proof -
  let ?combined = "toLowerCase (joinWith '' '' cmds)"
  let ?p = "case toLowerCase proc of [] \<Rightarrow> toLowerCase proc
            | c # cs \<Rightarrow> if c = CHR ''-'' then cs else toLowerCase proc"
  have ne: "ttyList \<noteq> []" using assms(1) by auto
  have at: "matchTtyPrograms ttyList psOutput (int i + 1)
              = ttyStep ttyList (groupForeground psOutput) i Map.empty (int i + 1)"
    using ne assms(1,2) by (simp add: matchTtyPrograms_def ttyLoop_at)
  note step = ttyStep_agents [where fg="groupForeground psOutput" and tys=ttyList and i=i
      and cmds=cmds and combined="?combined" and m=Map.empty, OF assms(3) refl]
  note name = detectProgramFromName_agents [where proc=proc and p="?p", OF refl]
  have c1: "includesStr ?combined ''claude''
            \<longrightarrow> matchTtyPrograms ttyList psOutput (int i + 1) = Some ''claude''"
    using step(1) by (simp only: at) blast
  have sub: "sublist ''claude'' ''.local/share/claude/''"
    by code_simp
  have path: "includesStr ?combined ''.local/share/claude/'' \<Longrightarrow> includesStr ?combined ''claude''"
    unfolding includesStr_def using sub by (rule sublist_order.order.trans)
  have c2: "includesStr ?combined ''codex'' \<and> \<not> includesStr ?combined ''claude''
            \<longrightarrow> matchTtyPrograms ttyList psOutput (int i + 1) = Some ''codex''"
    using step(2) path by (simp only: at) blast
  have c3: "includesStr (toLowerCase proc) ''codex'' \<longrightarrow> detectProgramFromName proc = ''codex''"
  proof
    assume "includesStr (toLowerCase proc) ''codex''"
    then have "includesStr ?p ''codex''"
      by (rule includes_dash) simp_all
    then show "detectProgramFromName proc = ''codex''"
      by (rule name(1))
  qed
  have c4: "includesStr (toLowerCase proc) ''claude''
            \<and> \<not> includesStr (toLowerCase proc) ''codex''
            \<longrightarrow> detectProgramFromName proc = ''claude''"
  proof
    assume a: "includesStr (toLowerCase proc) ''claude''
                 \<and> \<not> includesStr (toLowerCase proc) ''codex''"
    then have "includesStr (toLowerCase proc) ''claude''" ..
    then have "includesStr ?p ''claude''"
      by (rule includes_dash) simp_all
    moreover have "\<not> includesStr ?p ''codex''"
      using a dash_includes by blast
    ultimately show "detectProgramFromName proc = ''claude''"
      using name(2) by blast
  qed
  from c1 c2 c3 c4 show ?thesis
    by (intro conjI)
qed

text \<open>
  The theorem on two agents started as \<open>python3 .../cli.py\<close>: both command lines
  contain \<open>python\<close>, and the tabs are classified as \<open>claude\<close> and \<open>codex\<close>.
\<close>

theorem agent_before_interpreter_witness:
  "includesStr (toLowerCase ''/usr/bin/python3 /Users/me/.local/share/claude/cli.py'') ''python''
   \<and> matchTtyPrograms (ttys agentFetched) agentPs 1 = Some ''claude''
   \<and> includesStr (toLowerCase ''/usr/bin/python3 /opt/codex/cli.py --full-auto'') ''python''
   \<and> matchTtyPrograms (ttys agentFetched) agentPs 2 = Some ''codex''
   \<and> detectProgramFromName ''codex-python'' = ''codex''
   \<and> detectProgramFromName ''Python (claude)'' = ''claude''"
proof -
  have len: "0 < length (ttys agentFetched)" "1 < length (ttys agentFetched)"
    by (simp_all add: agentFetched_def)
  have ne: "agentPs \<noteq> []"
    by (simp add: agentPs_def)
  have g0: "groupForeground agentPs (replaceFirst ''/dev/'' [] (ttys agentFetched ! 0))
              = Some [''/usr/bin/python3 /Users/me/.local/share/claude/cli.py'']"
    by code_simp
  have g1: "groupForeground agentPs (replaceFirst ''/dev/'' [] (ttys agentFetched ! 1))
              = Some [''/usr/bin/python3 /opt/codex/cli.py --full-auto'']"
    by code_simp
  have a0: "includesStr (toLowerCase ''/usr/bin/python3 /Users/me/.local/share/claude/cli.py'')
              ''claude''"
    by code_simp
  have a1: "includesStr (toLowerCase ''/usr/bin/python3 /opt/codex/cli.py --full-auto'') ''codex''"
    "\<not> includesStr (toLowerCase ''/usr/bin/python3 /opt/codex/cli.py --full-auto'') ''claude''"
    by code_simp+
  have n3: "includesStr (toLowerCase ''codex-python'') ''codex''"
    by code_simp
  have n4: "includesStr (toLowerCase ''Python (claude)'') ''claude''"
    "\<not> includesStr (toLowerCase ''Python (claude)'') ''codex''"
    by code_simp+
  have py: "includesStr (toLowerCase ''/usr/bin/python3 /Users/me/.local/share/claude/cli.py'')
              ''python''"
    "includesStr (toLowerCase ''/usr/bin/python3 /opt/codex/cli.py --full-auto'') ''python''"
    by code_simp+
  note t0 = agent_before_interpreter [OF len(1) ne g0, of "''codex-python''"]
  note t1 = agent_before_interpreter [OF len(2) ne g1, of "''Python (claude)''"]
  show ?thesis
    using t0 t1 a0 a1 n3 n4 py by simp
qed

section \<open>Publishing\<close>

text \<open>Tracked indices: an action without a stored index gets one from 1 to 6.\<close>

lemma find_in_set: "find P xs = Some x \<Longrightarrow> x \<in> set xs"
  by (induction xs) (auto split: if_splits)

lemma assignTabIndex_auto:
  "1 \<le> assignTabIndex None tracked \<and> assignTabIndex None tracked \<le> 6"
proof (cases "find (\<lambda>i. i \<notin> set (map snd tracked)) [1, 2, 3, 4, 5, 6 :: int]")
  case None
  then show ?thesis by (simp add: assignTabIndex_def)
next
  case (Some i)
  then have "i \<in> set [1, 2, 3, 4, 5, 6]"
    by (rule find_in_set)
  then have "1 \<le> i \<and> i \<le> 6" by auto
  with Some show ?thesis by (simp add: assignTabIndex_def)
qed

lemma assignTabIndex_stored:
  "1 \<le> k \<Longrightarrow> assignTabIndex (Some k) tracked = k"
  by (simp add: assignTabIndex_def)

lemma publishEntry_expected:
  assumes "1 \<le> idx"
  shows "publishEntry ti progs s idx = Inr (expectedImage ti progs s idx)"
  using assms by (simp add: publishEntry_def expectedImage_def arrayAt_def Let_def)

lemma publishLoop_expected:
  assumes "\<forall>e \<in> set entries. 1 \<le> snd e"
  shows "publishLoop ti progs s entries
           = Inr (map (\<lambda>e. (fst e, expectedImage ti progs s (snd e))) entries)"
  using assms
proof (induction entries)
  case Nil
  show ?case by simp
next
  case (Cons e entries)
  obtain a idx where e: "e = (a, idx)" by (cases e)
  with Cons show ?case
    by (simp add: publishEntry_expected)
qed

lemma updateAttention_visibleActions:
  "visibleActions (updateAttention ti s) = visibleActions s"
  by (simp add: updateAttention_def Let_def startLogStream_def attentionLoop_frame
        consumeNotification_frame)

text \<open>
  C8. In every poll cycle, for tracked tab indices (which are 1-based: \<open>1 \<le> idx\<close>),
  the publishing loop raises no error and never reads \<open>names\<close> out of bounds: a
  tracked index \<open>idx \<le> names.length\<close> is given the tuple of the tab \<open>names[idx - 1]\<close>,
  a tracked index beyond the tab count is given the empty button.
\<close>

theorem publish_in_bounds:
  assumes "\<forall>e \<in> set (visibleActions s). 1 \<le> snd e"
  shows "snd (pollTabsFinish fetched psOutput front s)
           = Inr (map (\<lambda>e. (fst e,
                    expectedImage (fetched\<lparr>frontmost := front\<rparr>)
                      (matchTtyPrograms (ttys fetched) psOutput)
                      (updateAttention (fetched\<lparr>frontmost := front\<rparr>) s) (snd e)))
                  (visibleActions s))"
  using assms
  by (simp add: pollTabsFinish_def Let_def updateAttention_visibleActions
        publishLoop_expected)

text \<open>
  The theorem on three tracked buttons and two tabs, iTerm2 frontmost with the first
  tab selected and no process data: the first two buttons show their tabs, programs
  taken from the titles, the third is empty.
\<close>

theorem publish_in_bounds_witness:
  "map snd (visibleActions threeButtons) = [1, 2, 3]
   \<and> snd (pollTabsFinish scenarioFetched [] True threeButtons)
       = Inr [(''button-1'', Button \<lparr>tabName = ''build'', program = ''node'',
                                     isActive = True, hasAttention = False\<rparr>),
              (''button-2'', Button \<lparr>tabName = ''notes'', program = ''vim'',
                                     isActive = False, hasAttention = False\<rparr>),
              (''button-3'', EmptyButton)]"
proof -
  have h: "\<forall>e \<in> set (visibleActions threeButtons). 1 \<le> snd e"
    by (simp add: threeButtons_def initialEngine_def)
  have ev: "Inr (map (\<lambda>e. (fst e,
                    expectedImage (scenarioFetched\<lparr>frontmost := True\<rparr>)
                      (matchTtyPrograms (ttys scenarioFetched) [])
                      (updateAttention (scenarioFetched\<lparr>frontmost := True\<rparr>) threeButtons)
                      (snd e)))
                  (visibleActions threeButtons))
            = (Inr [(''button-1'', Button \<lparr>tabName = ''build'', program = ''node'',
                                     isActive = True, hasAttention = False\<rparr>),
              (''button-2'', Button \<lparr>tabName = ''notes'', program = ''vim'',
                                     isActive = False, hasAttention = False\<rparr>),
              (''button-3'', EmptyButton)] :: js_error + (string \<times> image) list)"
    by code_simp
  have tracked: "map snd (visibleActions threeButtons) = [1, 2, 3]"
    by (simp add: threeButtons_def initialEngine_def)
  show ?thesis
    using tracked publish_in_bounds [OF h, of scenarioFetched "[]" True]
    by (simp only: ev simp_thms)
qed

section \<open>The event file\<close>

text \<open>
  C9. \<open>readNotificationEvent\<close> never raises. It returns \<open>null\<close> when the file is
  missing or does not parse, when the parsed value is not an object with a \<open>project\<close>
  and a \<open>timestamp\<close> property, and when the timestamp is a number 5000 ms or more
  before the time of the read. When it returns a record, the file parsed to an object
  whose \<open>project\<close> and \<open>timestamp\<close> are present and truthy and whose timestamp, as a
  number, is less than 5000 ms before the time of the read.
\<close>

theorem readNotificationEvent_total:
  "(\<exists>r. readNotificationEvent coerce content now = Inr r)
   \<and> (content = FileMissing \<or> content = FileUnparseable
        \<longrightarrow> readNotificationEvent coerce content now = Inr None)
   \<and> (content = FileData d
        \<and> (\<not> (\<exists>kvs v. d = JObj kvs \<and> map_of kvs ''project'' = Some v)
           \<or> \<not> (\<exists>kvs v. d = JObj kvs \<and> map_of kvs ''timestamp'' = Some v))
        \<longrightarrow> readNotificationEvent coerce content now = Inr None)
   \<and> (content = FileData (JObj kvs) \<and> map_of kvs ''timestamp'' = Some (JNum ts)
        \<and> 5000 \<le> now - ts
        \<longrightarrow> readNotificationEvent coerce content now = Inr None)
   \<and> (readNotificationEvent coerce content now = Inr (Some r)
        \<longrightarrow> (\<exists>kvs p tv ts. content = FileData (JObj kvs) \<and> r = JObj kvs
                \<and> map_of kvs ''project'' = Some p \<and> truthy p
                \<and> map_of kvs ''timestamp'' = Some tv \<and> truthy tv
                \<and> toNumber coerce tv = Some ts \<and> now - ts < 5000))"
proof (intro conjI impI)
  show "\<exists>r. readNotificationEvent coerce content now = Inr r"
    by (simp add: readNotificationEvent_def split: sum.split)
next
  assume "content = FileMissing \<or> content = FileUnparseable"
  then show "readNotificationEvent coerce content now = Inr None"
    by (auto simp add: readNotificationEvent_def readEventBody_def)
next
  assume "content = FileData d
        \<and> (\<not> (\<exists>kvs v. d = JObj kvs \<and> map_of kvs ''project'' = Some v)
           \<or> \<not> (\<exists>kvs v. d = JObj kvs \<and> map_of kvs ''timestamp'' = Some v))"
  then show "readNotificationEvent coerce content now = Inr None"
    by (cases d)
       (auto simp add: readNotificationEvent_def readEventBody_def
          split: sum.splits option.splits)
next
  assume "content = FileData (JObj kvs) \<and> map_of kvs ''timestamp'' = Some (JNum ts)
        \<and> 5000 \<le> now - ts"
  then show "readNotificationEvent coerce content now = Inr None"
    by (auto simp add: readNotificationEvent_def readEventBody_def
          split: sum.splits option.splits)
next
  assume a: "readNotificationEvent coerce content now = Inr (Some r)"
  then obtain d where d: "content = FileData d"
    by (cases content) (auto simp add: readNotificationEvent_def readEventBody_def)
  from a d obtain kvs where kvs: "d = JObj kvs"
    by (cases d)
       (auto simp add: readNotificationEvent_def readEventBody_def
          split: sum.splits option.splits if_splits)
  from a d kvs show "\<exists>kvs p tv ts. content = FileData (JObj kvs) \<and> r = JObj kvs
                \<and> map_of kvs ''project'' = Some p \<and> truthy p
                \<and> map_of kvs ''timestamp'' = Some tv \<and> truthy tv
                \<and> toNumber coerce tv = Some ts \<and> now - ts < 5000"
    by (auto simp add: readNotificationEvent_def readEventBody_def
          split: sum.splits option.splits if_splits)
qed

text \<open>
  The theorem on a missing file, a file without a project, and a file written at time
  1000 read at time 6000 (exactly 5 seconds old: no hint) and at time 5999 (a hint).
\<close>

theorem readNotificationEvent_total_witness:
  "readNotificationEvent (\<lambda>v. None) FileMissing 5999 = Inr None
   \<and> readNotificationEvent (\<lambda>v. None) noProjectFile 5999 = Inr None
   \<and> readNotificationEvent (\<lambda>v. None) freshFile 6000 = Inr None
   \<and> readNotificationEvent (\<lambda>v. None) freshFile 5999
        = Inr (Some (JObj [(''project'', JStr ''deploy''), (''timestamp'', JNum 1000)]))
   \<and> (\<exists>kvs p tv ts. freshFile = FileData (JObj kvs)
          \<and> map_of kvs ''project'' = Some p \<and> truthy p
          \<and> map_of kvs ''timestamp'' = Some tv \<and> truthy tv
          \<and> toNumber (\<lambda>v. None) tv = Some ts \<and> 5999 - ts < 5000)"
proof -
  let ?d = "JObj [(''project'', JStr ''deploy''), (''timestamp'', JNum 1000)]"
  let ?n = "JObj [(''timestamp'', JNum 1000)]"
  have missing: "readNotificationEvent (\<lambda>v. None) FileMissing 5999 = Inr None"
    using readNotificationEvent_total [where content = FileMissing and now = 5999
        and coerce = "\<lambda>v. None"]
    by simp
  have lacking: "readNotificationEvent (\<lambda>v. None) noProjectFile 5999 = Inr None"
    using readNotificationEvent_total [where content = noProjectFile and now = 5999
        and coerce = "\<lambda>v. None" and d = ?n]
    by (simp add: noProjectFile_def)
  have stale: "readNotificationEvent (\<lambda>v. None) freshFile 6000 = Inr None"
    using readNotificationEvent_total [where content = freshFile and now = 6000
        and coerce = "\<lambda>v. None"
        and kvs = "[(''project'', JStr ''deploy''), (''timestamp'', JNum 1000)]" and ts = 1000]
    by (simp add: freshFile_def)
  have fresh: "readNotificationEvent (\<lambda>v. None) freshFile 5999 = Inr (Some ?d)"
    by code_simp
  have wf: "\<exists>kvs p tv ts. freshFile = FileData (JObj kvs) \<and> ?d = JObj kvs
          \<and> map_of kvs ''project'' = Some p \<and> truthy p
          \<and> map_of kvs ''timestamp'' = Some tv \<and> truthy tv
          \<and> toNumber (\<lambda>v. None) tv = Some ts \<and> 5999 - ts < 5000"
    using fresh readNotificationEvent_total [where content = freshFile and now = 5999
        and coerce = "\<lambda>v. None" and r = ?d]
    by blast
  then have wf': "\<exists>kvs p tv ts. freshFile = FileData (JObj kvs)
          \<and> map_of kvs ''project'' = Some p \<and> truthy p
          \<and> map_of kvs ''timestamp'' = Some tv \<and> truthy tv
          \<and> toNumber (\<lambda>v. None) tv = Some ts \<and> 5999 - ts < 5000"
    by blast
  show ?thesis
    using missing lacking stale fresh wf' by (intro conjI)
qed

section \<open>Key presses\<close>

text \<open>
  C10. A key press on a tracked action removes that action's tab index from the flagged
  set and leaves every other flag as it was. The removal is done when \<open>switchToTab\<close>
  is called (the command to select the tab has not been issued before), and it stands
  whether the switch command then fails or not.
\<close>

theorem keyDown_clears_flag:
  assumes "map_of (visibleActions s) actionId = Some tabIndex"
  shows "attentionTabs (fst (onKeyDown actionId switchFails s)) = attentionTabs s - {tabIndex}
       \<and> (\<exists>s1 cmds. keyDownBeforeSwitch actionId s = Some (s1, cmds, tabIndex)
             \<and> attentionTabs s1 = attentionTabs s - {tabIndex}
             \<and> SelectTab tabIndex \<notin> set cmds)
       \<and> SelectTab tabIndex \<in> set (snd (onKeyDown actionId switchFails s))"
  using assms
  by (simp add: onKeyDown_def keyDownBeforeSwitch_def pollTabsBegin_def Let_def)

text \<open>
  The theorem on two tracked buttons with both tabs flagged: a key press on the second
  button, with a failing switch command, leaves only tab 1 flagged.
\<close>

theorem keyDown_clears_flag_witness:
  "map_of (visibleActions keyEngine) ''button-2'' = Some 2
   \<and> attentionTabs keyEngine = {1, 2}
   \<and> attentionTabs (fst (onKeyDown ''button-2'' True keyEngine)) = {1}
   \<and> snd (onKeyDown ''button-2'' True keyEngine)
       = [StartQueries, SelectTab 2, WarnSwitchFailed 2]"
proof -
  have h: "map_of (visibleActions keyEngine) ''button-2'' = Some 2"
    by (simp add: keyEngine_def initialEngine_def)
  have a: "attentionTabs keyEngine = {1, 2}"
    by (simp add: keyEngine_def initialEngine_def)
  have c: "snd (onKeyDown ''button-2'' True keyEngine)
       = [StartQueries, SelectTab 2, WarnSwitchFailed 2]"
    by code_simp
  have "{1, 2} - {2} = {1::int}" by auto
  then show ?thesis
    using h a c keyDown_clears_flag [OF h, of True] by simp
qed

end
